theory Spec2Isabelle
  imports Complex_Main "HOL-Library.Log_Nat"
begin

section \<open>Threshold pressures of the ECL black-oil simulator\<close>

text \<open>
  A shallow embedding of \<^verbatim>\<open>Ewoms::EclThresholdPressure\<close>
  (\<^verbatim>\<open>ebos/eclthresholdpressure.hh\<close>). The class keeps a flattened
  region-by-region matrix of threshold pressures, filled once by \<^verbatim>\<open>finishInit\<close>
  and read by \<^verbatim>\<open>thresholdPressure\<close>.

  Conventions of the embedding:
  \<^item> \<^verbatim>\<open>Scalar\<close> is \<^verbatim>\<open>double\<close>, modelled by the real number a finite double stands
    for. The class only compares scalars and takes absolute values and maxima of them,
    which are exact, apart from one product, which is rounded as IEEE 754 binary64
    arithmetic rounds it (\<open>doubleMul\<close>). Infinities and NaN are not modelled.
  \<^item> \<^verbatim>\<open>std::vector\<close> is a list. An index outside the vector is undefined behaviour
    in C++; the model reports it as the error \<open>OutOfBounds\<close>, and an \<^verbatim>\<open>assert\<close> that
    does not hold as \<open>AssertionFailed\<close>.
  \<^item> The private members and functions keep their names without the trailing
    underscore of the source (\<^verbatim>\<open>thpres_\<close> is \<open>thpres\<close>).
  \<^item> Everything the class reads from the simulator (grid view, vanguard, deck, parsed
    state, communicator) is a field of the record \<open>simulator\<close>.
\<close>

subsection \<open>The object and what it reads from the simulator\<close>

type_synonym Scalar = real

record EclThresholdPressure =
  thpresDefault :: "Scalar list"
  thpres :: "Scalar list"
  numEquilRegions :: nat
  elemEquilRegion :: "nat list"  \<comment> \<open>\<^verbatim>\<open>unsigned char\<close>: every entry is below 256\<close>
  thpresftValues :: "Scalar list"
  cartElemFaultIdx :: "int list"
  enableThresholdPressure :: bool

datatype error =
    RuntimeError string EclThresholdPressure
      \<comment> \<open>\<^verbatim>\<open>std::runtime_error\<close>, with the object as the throw leaves it\<close>
  | OutOfBounds
  | AssertionFailed

text \<open>One fluid phase at a face: the mobility of the phase in the upstream cell and the
  pressure potential difference of the phase over the face.\<close>

record phaseQuantities =
  upMobility :: Scalar
  pressureDifference :: Scalar

text \<open>An interior face of an element's stencil, with the global indices of the two
  cells it joins and the extensive quantities of the face.\<close>

record stencilFace =
  insideElemIdx :: nat
  outsideElemIdx :: nat
  faceArea :: Scalar
  transmissibility :: Scalar
  extQuants :: "phaseQuantities list"  \<comment> \<open>one entry per phase, \<^verbatim>\<open>numPhases\<close> long\<close>

text \<open>An intersection of the grid view; \<open>isOutside\<close> is only read when the
  intersection is not on the boundary.\<close>

record intersection =
  isBoundary :: bool
  isInside :: nat
  isOutside :: nat

record element =
  interiorEntity :: bool  \<comment> \<open>\<^verbatim>\<open>partitionType() == Dune::InteriorEntity\<close>\<close>
  interiorFaces :: "stencilFace list"
  intersections :: "intersection list"

record fault =
  faultName :: string
  faultFaces :: "nat list list"  \<comment> \<open>each "face" is a set of cartesian cell indices\<close>

record simulator =
  numElements :: nat  \<comment> \<open>\<^verbatim>\<open>gridView.size(0)\<close>\<close>
  numGridDof :: nat
  cartesianIndex :: "nat \<Rightarrow> int"
  useThresholdPressure :: bool
  getNumEquilRegions :: nat  \<comment> \<open>the count, as the \<^verbatim>\<open>unsigned\<close> member receives it\<close>
  EQLNUM :: "int list"  \<comment> \<open>indexed by cartesian index, regions numbered from 1\<close>
  restart :: bool
  hasRegionBarrier :: "nat \<Rightarrow> nat \<Rightarrow> bool"
  hasThresholdPressure :: "nat \<Rightarrow> nat \<Rightarrow> bool"
  getThresholdPressure :: "nat \<Rightarrow> nat \<Rightarrow> Scalar"
  elements :: "element list"
  commOthers :: "Scalar list list"
    \<comment> \<open>what the other processes of the run hold in \<^verbatim>\<open>thpresDefault_\<close> when they
       reach the reduction; empty in a sequential run\<close>
  enableExperiments :: bool
  THPRESFT :: "(string \<times> Scalar) list option"
    \<comment> \<open>the records (fault name, value) of the keyword, if the deck has it\<close>
  faults :: "fault list"
  getCartesianSize :: nat

subsection \<open>Vectors\<close>

text \<open>\<^verbatim>\<open>v.resize(n, x)\<close>: keeps the first \<open>n\<close> entries and pads with \<open>x\<close>.\<close>

definition resize :: "'a list \<Rightarrow> nat \<Rightarrow> 'a \<Rightarrow> 'a list" where
  "resize v n x = take n v @ replicate (n - length v) x"

subsection \<open>Construction and restart\<close>

text \<open>The constructor only clears the flag; the vectors start empty and
  \<^verbatim>\<open>numEquilRegions_\<close> is not initialised (\<open>junk\<close> is whatever it holds).\<close>

definition EclThresholdPressure_new :: "nat \<Rightarrow> EclThresholdPressure" where
  "EclThresholdPressure_new junk =
     \<lparr>thpresDefault = [], thpres = [], numEquilRegions = junk, elemEquilRegion = [],
      thpresftValues = [], cartElemFaultIdx = [], enableThresholdPressure = False\<rparr>"

definition setFromRestart :: "Scalar list \<Rightarrow> EclThresholdPressure \<Rightarrow> EclThresholdPressure" where
  "setFromRestart values st = st\<lparr>thpres := values\<rparr>"

definition data :: "EclThresholdPressure \<Rightarrow> Scalar list" where
  "data st = thpres st"

subsection \<open>The EQLNUM loop of finishInit\<close>

text \<open>The loop over \<open>elemIdx\<close> that internalises EQLNUM. The value \<open>d - 1\<close> is stored in
  an \<^verbatim>\<open>unsigned char\<close>, so it is taken modulo 256.\<close>

fun internalizeEqlnum ::
  "(nat \<Rightarrow> int) \<Rightarrow> int list \<Rightarrow> nat list \<Rightarrow> nat list \<Rightarrow> error + nat list" where
  "internalizeEqlnum cart equilRegionData [] regs = Inr regs"
| "internalizeEqlnum cart equilRegionData (elemIdx # rest) regs =
     (let cartElemIdx = cart elemIdx in
      if 0 \<le> cartElemIdx \<and> nat cartElemIdx < length equilRegionData \<and> elemIdx < length regs
      then internalizeEqlnum cart equilRegionData rest
             (regs[elemIdx := nat ((equilRegionData ! nat cartElemIdx - 1) mod 256)])
      else Inl OutOfBounds)"

subsection \<open>The product of two doubles\<close>

text \<open>The nearest integer, ties to the even one.\<close>

definition roundHalfEven :: "real \<Rightarrow> int" where
  "roundHalfEven q =
     (let f = \<lfloor>q\<rfloor> in
      if q - of_int f < 1 / 2 then f
      else if q - of_int f > 1 / 2 then f + 1
      else if even f then f else f + 1)"

text \<open>The spacing of the doubles around \<open>x\<close>: \<open>2 powi (e - 52)\<close> when
  \<open>2 powi e \<le> |x| < 2 powi (e + 1)\<close> in the normal range (\<open>bitlen\<close> of the scaled
  magnitude finds \<open>e\<close>), and \<open>2 powi (- 1074)\<close> below the normal range.\<close>

definition doubleUlp :: "real \<Rightarrow> real" where
  "doubleUlp x =
     (let a = \<bar>x\<bar> in
      if a < 2 powi (- 1022) then 2 powi (- 1074)
      else 2 powi (bitlen \<lfloor>a * 2 ^ 1022\<rfloor> - 1 - 1022 - 52))"

text \<open>Rounding to the nearest double, ties to even. A result beyond the largest double
  is an infinity in the code and stays a (large) real here; the one comparison that
  reads the product comes out the same.\<close>

definition roundToDouble :: "real \<Rightarrow> real" where
  "roundToDouble x = of_int (roundHalfEven (x / doubleUlp x)) * doubleUlp x"

text \<open>\<^verbatim>\<open>a * b\<close> on doubles.\<close>

definition doubleMul :: "Scalar \<Rightarrow> Scalar \<Rightarrow> Scalar" where
  "doubleMul a b = roundToDouble (a * b)"

text \<open>The literal \<^verbatim>\<open>1e-18\<close>: the double nearest to \<open>1 / 10 ^ 18\<close>, which lies a little
  above it.\<close>

definition double_1e_18 :: Scalar where
  "double_1e_18 = 1298074214633707 / 2 ^ 110"

subsection \<open>Default threshold pressures from the initial condition\<close>

text \<open>The loop over the phases of one face, with \<open>pth\<close> as the accumulator.\<close>

fun phaseLoop :: "phaseQuantities list \<Rightarrow> Scalar \<Rightarrow> Scalar" where
  "phaseLoop [] pth = pth"
| "phaseLoop (q # qs) pth =
     phaseLoop qs (if upMobility q > 0 then max pth \<bar>pressureDifference q\<bar> else pth)"

text \<open>The body of the loop over the interior faces of a stencil.\<close>

definition defaultFace ::
  "nat \<Rightarrow> nat list \<Rightarrow> stencilFace \<Rightarrow> Scalar list \<Rightarrow> error + Scalar list" where
  "defaultFace R regs face D =
     (if insideElemIdx face < length regs \<and> outsideElemIdx face < length regs then
        let equilRegionInside = regs ! insideElemIdx face;
            equilRegionOutside = regs ! outsideElemIdx face
        in
          if equilRegionInside = equilRegionOutside then Inr D
          else if \<bar>doubleMul (faceArea face) (transmissibility face)\<bar> < double_1e_18 then Inr D
          else
            let pth = phaseLoop (extQuants face) 0;
                offset1 = equilRegionInside * R + equilRegionOutside;
                offset2 = equilRegionOutside * R + equilRegionInside
            in
              if offset1 < length D \<and> offset2 < length D then
                let D1 = D[offset1 := max (D ! offset1) pth] in
                Inr (D1[offset2 := max (D1 ! offset2) pth])
              else Inl OutOfBounds
      else Inl OutOfBounds)"

fun defaultFaces ::
  "nat \<Rightarrow> nat list \<Rightarrow> stencilFace list \<Rightarrow> Scalar list \<Rightarrow> error + Scalar list" where
  "defaultFaces R regs [] D = Inr D"
| "defaultFaces R regs (face # rest) D =
     (case defaultFace R regs face D of
        Inl e \<Rightarrow> Inl e
      | Inr D' \<Rightarrow> defaultFaces R regs rest D')"

text \<open>The loop over the elements: only interior elements are looked at.\<close>

fun defaultElements ::
  "nat \<Rightarrow> nat list \<Rightarrow> element list \<Rightarrow> Scalar list \<Rightarrow> error + Scalar list" where
  "defaultElements R regs [] D = Inr D"
| "defaultElements R regs (elem # rest) D =
     (if \<not> interiorEntity elem then defaultElements R regs rest D
      else case defaultFaces R regs (interiorFaces elem) D of
             Inl e \<Rightarrow> Inl e
           | Inr D' \<Rightarrow> defaultElements R regs rest D')"

text \<open>Modelled from the spec: \<^verbatim>\<open>gridView.comm().max(x)\<close> belongs to the grid library
  and is not part of the sources; the specification describes it as a collective
  element-wise maximum over all cooperating partitions. \<open>others\<close> are the values the
  other partitions pass to the same call.\<close>

definition commMax :: "Scalar list \<Rightarrow> Scalar \<Rightarrow> Scalar" where
  "commMax others x = fold max others x"

text \<open>The final loop of \<^verbatim>\<open>computeDefaultThresholdPressures_\<close>: entry \<open>i\<close> is replaced
  by the maximum over all processes of their entry \<open>i\<close>.\<close>

definition reduceDefault :: "Scalar list list \<Rightarrow> Scalar list \<Rightarrow> Scalar list" where
  "reduceDefault others D =
     map (\<lambda>i. commMax (map (\<lambda>m. m ! i) others) (D ! i)) [0..<length D]"

definition scanDefault :: "simulator \<Rightarrow> EclThresholdPressure \<Rightarrow> error + Scalar list" where
  "scanDefault sim st =
     defaultElements (numEquilRegions st) (elemEquilRegion st) (elements sim)
       (thpresDefault st)"

definition computeDefaultThresholdPressures ::
  "simulator \<Rightarrow> EclThresholdPressure \<Rightarrow> error + EclThresholdPressure" where
  "computeDefaultThresholdPressures sim st =
     (case scanDefault sim st of
        Inl e \<Rightarrow> Inl e
      | Inr D \<Rightarrow> Inr (st\<lparr>thpresDefault := reduceDefault (commOthers sim) D\<rparr>))"

subsection \<open>Threshold pressures given with the THPRES keyword\<close>

text \<open>The body of the loop over the intersections of an element. The configuration
  numbers regions from 1, hence the \<open>+ 1\<close>.\<close>

definition explicitIntersection ::
  "simulator \<Rightarrow> nat \<Rightarrow> nat list \<Rightarrow> Scalar list \<Rightarrow> intersection \<Rightarrow> Scalar list
     \<Rightarrow> error + Scalar list" where
  "explicitIntersection sim R regs D isect T =
     (if isBoundary isect then Inr T
      else if isInside isect < length regs \<and> isOutside isect < length regs then
        let equilRegionInside = regs ! isInside isect;
            equilRegionOutside = regs ! isOutside isect
        in
          if hasRegionBarrier sim (equilRegionInside + 1) (equilRegionOutside + 1) then
            let offset1 = equilRegionInside * R + equilRegionOutside;
                offset2 = equilRegionOutside * R + equilRegionInside
            in
              if hasThresholdPressure sim (equilRegionInside + 1) (equilRegionOutside + 1) then
                let pth = getThresholdPressure sim (equilRegionInside + 1) (equilRegionOutside + 1) in
                if offset1 < length T \<and> offset2 < length T
                then Inr (T[offset1 := pth, offset2 := pth])
                else Inl OutOfBounds
              else if offset1 < length D then
                let pth = D ! offset1 in
                if offset1 < length T \<and> offset2 < length T
                then Inr (T[offset1 := pth, offset2 := pth])
                else Inl OutOfBounds
              else Inl OutOfBounds
          else Inr T
      else Inl OutOfBounds)"

fun explicitIntersections ::
  "simulator \<Rightarrow> nat \<Rightarrow> nat list \<Rightarrow> Scalar list \<Rightarrow> intersection list \<Rightarrow> Scalar list
     \<Rightarrow> error + Scalar list" where
  "explicitIntersections sim R regs D [] T = Inr T"
| "explicitIntersections sim R regs D (isect # rest) T =
     (case explicitIntersection sim R regs D isect T of
        Inl e \<Rightarrow> Inl e
      | Inr T' \<Rightarrow> explicitIntersections sim R regs D rest T')"

fun explicitElements ::
  "simulator \<Rightarrow> nat \<Rightarrow> nat list \<Rightarrow> Scalar list \<Rightarrow> element list \<Rightarrow> Scalar list
     \<Rightarrow> error + Scalar list" where
  "explicitElements sim R regs D [] T = Inr T"
| "explicitElements sim R regs D (elem # rest) T =
     (if \<not> interiorEntity elem then explicitElements sim R regs D rest T
      else case explicitIntersections sim R regs D (intersections elem) T of
             Inl e \<Rightarrow> Inl e
           | Inr T' \<Rightarrow> explicitElements sim R regs D rest T')"

subsection \<open>Threshold pressures across faults\<close>

text \<open>The two innermost loops of \<^verbatim>\<open>extractThpresft_\<close>: every cell of every face of the
  fault is mapped to the fault.\<close>

fun markFaultCells :: "nat \<Rightarrow> nat list \<Rightarrow> int list \<Rightarrow> error + int list" where
  "markFaultCells faultIdx [] cfi = Inr cfi"
| "markFaultCells faultIdx (cartElemIdx # rest) cfi =
     (if cartElemIdx < length cfi
      then markFaultCells faultIdx rest (cfi[cartElemIdx := int faultIdx])
      else Inl OutOfBounds)"

text \<open>The loop over the faults for one record; \<open>faultIdx\<close> is the index of the first
  fault of the list.\<close>

fun faultLoop ::
  "string \<Rightarrow> Scalar \<Rightarrow> nat \<Rightarrow> fault list \<Rightarrow> Scalar list \<times> int list
     \<Rightarrow> error + (Scalar list \<times> int list)" where
  "faultLoop name thpresValue faultIdx [] s = Inr s"
| "faultLoop name thpresValue faultIdx (flt # rest) (vals, cfi) =
     (if faultName flt \<noteq> name then faultLoop name thpresValue (Suc faultIdx) rest (vals, cfi)
      else if faultIdx < length vals then
        (case markFaultCells faultIdx (concat (faultFaces flt)) cfi of
           Inl e \<Rightarrow> Inl e
         | Inr cfi' \<Rightarrow>
             faultLoop name thpresValue (Suc faultIdx) rest (vals[faultIdx := thpresValue], cfi'))
      else Inl OutOfBounds)"

fun recordLoop ::
  "fault list \<Rightarrow> (string \<times> Scalar) list \<Rightarrow> Scalar list \<times> int list
     \<Rightarrow> error + (Scalar list \<times> int list)" where
  "recordLoop flts [] s = Inr s"
| "recordLoop flts ((name, thpresValue) # rest) s =
     (case faultLoop name thpresValue 0 flts s of
        Inl e \<Rightarrow> Inl e
      | Inr s' \<Rightarrow> recordLoop flts rest s')"

definition extractThpresft ::
  "simulator \<Rightarrow> (string \<times> Scalar) list \<Rightarrow> EclThresholdPressure \<Rightarrow> error + EclThresholdPressure" where
  "extractThpresft sim thpresftKeyword st =
     (let numFaults = length (faults sim);
          numCartesianElem = getCartesianSize sim
      in case recordLoop (faults sim) thpresftKeyword
                (resize (thpresftValues st) numFaults (- 1),
                 resize (cartElemFaultIdx st) numCartesianElem (- 1)) of
           Inl e \<Rightarrow> Inl e
         | Inr (vals, cfi) \<Rightarrow> Inr (st\<lparr>thpresftValues := vals, cartElemFaultIdx := cfi\<rparr>))"

definition applyExplicitThresholdPressures ::
  "simulator \<Rightarrow> EclThresholdPressure \<Rightarrow> error + EclThresholdPressure" where
  "applyExplicitThresholdPressures sim st =
     (case explicitElements sim (numEquilRegions st) (elemEquilRegion st) (thpresDefault st)
             (elements sim) (thpres st) of
        Inl e \<Rightarrow> Inl e
      | Inr T \<Rightarrow>
          let st' = st\<lparr>thpres := T\<rparr> in
          if enableExperiments sim then
            (case THPRESFT sim of
               None \<Rightarrow> Inr st'
             | Some thpresftKeyword \<Rightarrow> extractThpresft sim thpresftKeyword st')
          else Inr st')"

subsection \<open>finishInit\<close>

definition finishInit :: "simulator \<Rightarrow> EclThresholdPressure \<Rightarrow> error + EclThresholdPressure" where
  "finishInit sim st =
     (if numGridDof sim \<noteq> numElements sim then Inl AssertionFailed
      else
        let st1 = st\<lparr>enableThresholdPressure := useThresholdPressure sim\<rparr> in
        if \<not> enableThresholdPressure st1 then Inr st1
        else
          let st2 = st1\<lparr>numEquilRegions := getNumEquilRegions sim\<rparr> in
          if numEquilRegions st2 > 255 then
            Inl (RuntimeError
                   ''The maximum number of supported equilibration regions is 255!'' st2)
          else
            (case internalizeEqlnum (cartesianIndex sim) (EQLNUM sim) [0..<numElements sim]
                    (resize (elemEquilRegion st2) (numElements sim) 0) of
               Inl e \<Rightarrow> Inl e
             | Inr regs \<Rightarrow>
                 let st3 = st2\<lparr>elemEquilRegion := regs\<rparr> in
                 if restart sim then Inr st3
                 else
                   let n = numEquilRegions st3 * numEquilRegions st3;
                       st4 = st3\<lparr>thpres := resize (thpres st3) n 0,
                                 thpresDefault := resize (thpresDefault st3) n 0\<rparr>
                   in (case computeDefaultThresholdPressures sim st4 of
                         Inl e \<Rightarrow> Inl e
                       | Inr st5 \<Rightarrow> applyExplicitThresholdPressures sim st5)))"

subsection \<open>The query\<close>

text \<open>The last part of \<^verbatim>\<open>thresholdPressure\<close>: the threshold pressure across
  equilibration regions.\<close>

definition thresholdPressureEquil :: "EclThresholdPressure \<Rightarrow> nat \<Rightarrow> nat \<Rightarrow> error + Scalar" where
  "thresholdPressureEquil st elem1Idx elem2Idx =
     (if elem1Idx < length (elemEquilRegion st) \<and> elem2Idx < length (elemEquilRegion st) then
        let equilRegion1Idx = elemEquilRegion st ! elem1Idx;
            equilRegion2Idx = elemEquilRegion st ! elem2Idx
        in
          if equilRegion1Idx = equilRegion2Idx then Inr 0
          else
            let offset = equilRegion1Idx * numEquilRegions st + equilRegion2Idx in
            if offset < length (thpres st) then Inr (thpres st ! offset) else Inl OutOfBounds
      else Inl OutOfBounds)"

text \<open>\<^verbatim>\<open>thresholdPressure(elem1Idx, elem2Idx)\<close>. The arguments are cell indices; the
  model takes them as natural numbers.\<close>

definition thresholdPressure ::
  "simulator \<Rightarrow> EclThresholdPressure \<Rightarrow> nat \<Rightarrow> nat \<Rightarrow> error + Scalar" where
  "thresholdPressure sim st elem1Idx elem2Idx =
     (if \<not> enableThresholdPressure st then Inr 0
      else if enableExperiments sim \<and> thpresftValues st \<noteq> [] then
        let cartElem1Idx = cartesianIndex sim elem1Idx;
            cartElem2Idx = cartesianIndex sim elem2Idx
        in
          if \<not> (0 \<le> cartElem1Idx \<and> int (length (cartElemFaultIdx st)) > cartElem1Idx)
          then Inl AssertionFailed
          else if \<not> (0 \<le> cartElem2Idx \<and> int (length (cartElemFaultIdx st)) > cartElem2Idx)
          then Inl AssertionFailed
          else
            let fault1Idx = cartElemFaultIdx st ! nat cartElem1Idx;
                fault2Idx = cartElemFaultIdx st ! nat cartElem2Idx
            in
              if fault1Idx \<noteq> - 1 \<and> fault1Idx = fault2Idx then Inr 0
              else if fault1Idx \<noteq> fault2Idx then
                if fault1Idx \<ge> 0 \<and> nat fault1Idx \<ge> length (thpresftValues st)
                then Inl OutOfBounds
                else if fault2Idx \<ge> 0 \<and> nat fault2Idx \<ge> length (thpresftValues st)
                then Inl OutOfBounds
                else
                  let val1 = (if fault1Idx \<ge> 0 then thpresftValues st ! nat fault1Idx else 0);
                      val2 = (if fault2Idx \<ge> 0 then thpresftValues st ! nat fault2Idx else 0)
                  in Inr (max val1 val2)
              else thresholdPressureEquil st elem1Idx elem2Idx
      else thresholdPressureEquil st elem1Idx elem2Idx)"

section \<open>Notions used in the statements\<close>

text \<open>Cells \<open>i\<close> and \<open>j\<close> lie in the regions \<open>r1\<close> and \<open>r2\<close>, in either order.\<close>

definition joins :: "nat list \<Rightarrow> nat \<Rightarrow> nat \<Rightarrow> nat \<Rightarrow> nat \<Rightarrow> bool" where
  "joins regs i j r1 r2 =
     (i < length regs \<and> j < length regs \<and>
      ((regs ! i = r1 \<and> regs ! j = r2) \<or> (regs ! i = r2 \<and> regs ! j = r1)))"

text \<open>The intersection is an interior one and the configuration declares a barrier
  between the regions of its two cells (the test of \<^verbatim>\<open>applyExplicitThresholdPressures_\<close>).\<close>

definition barrierAt :: "simulator \<Rightarrow> nat list \<Rightarrow> intersection \<Rightarrow> bool" where
  "barrierAt sim regs isect =
     (\<not> isBoundary isect \<and>
      hasRegionBarrier sim (regs ! isInside isect + 1) (regs ! isOutside isect + 1))"

text \<open>The intersections the element loop of \<^verbatim>\<open>applyExplicitThresholdPressures_\<close>
  reaches, in order.\<close>

definition visitedIntersections :: "element list \<Rightarrow> intersection list" where
  "visitedIntersections els = concat (map intersections (filter interiorEntity els))"

text \<open>A flattened \<open>R\<close> by \<open>R\<close> matrix with equal entries at \<open>(r1, r2)\<close> and \<open>(r2, r1)\<close>.\<close>

definition symmetricMatrix :: "nat \<Rightarrow> Scalar list \<Rightarrow> bool" where
  "symmetricMatrix R T = (\<forall>r1<R. \<forall>r2<R. T ! (r1 * R + r2) = T ! (r2 * R + r1))"

text \<open>The value \<open>pth\<close> that \<^verbatim>\<open>applyExplicitThresholdPressures_\<close> writes for an intersection
  from region \<open>r1\<close> to region \<open>r2\<close>.\<close>

definition explicitValue :: "simulator \<Rightarrow> nat \<Rightarrow> Scalar list \<Rightarrow> nat \<Rightarrow> nat \<Rightarrow> Scalar" where
  "explicitValue sim R D r1 r2 =
     (if hasThresholdPressure sim (r1 + 1) (r2 + 1)
      then getThresholdPressure sim (r1 + 1) (r2 + 1) else D ! (r1 * R + r2))"

text \<open>The stencil face joins a cell of region \<open>r1\<close> and a cell of region \<open>r2\<close>.\<close>

definition faceJoins :: "nat list \<Rightarrow> stencilFace \<Rightarrow> nat \<Rightarrow> nat \<Rightarrow> bool" where
  "faceJoins regs face r1 r2 = joins regs (insideElemIdx face) (outsideElemIdx face) r1 r2"

text \<open>The faces the element loop of \<^verbatim>\<open>computeDefaultThresholdPressures_\<close> reaches,
  in order.\<close>

definition visitedFaces :: "element list \<Rightarrow> stencilFace list" where
  "visitedFaces els = concat (map interiorFaces (filter interiorEntity els))"

text \<open>The candidate threshold of a face as the specification words it: the largest
  absolute pressure potential difference among the phases whose upstream mobility is
  positive, and nothing (zero) when there is no such phase.\<close>

definition candidateThreshold :: "phaseQuantities list \<Rightarrow> Scalar" where
  "candidateThreshold qs =
     (let mobile = filter (\<lambda>q. upMobility q > 0) qs in
      if mobile = [] then 0 else Max ((\<lambda>q. \<bar>pressureDifference q\<bar>) ` set mobile))"

text \<open>What the specification asks of the estimator at one interior face, in its words:
  nothing when the two cells lie in the same region or when
  \<open>|area * transmissibility| < 1e-18\<close> (the product and the constant being the doubles
  of the code); otherwise both symmetric entries of the region pair become the maximum
  of what they hold and the candidate threshold of the face.\<close>

definition specFaceUpdate :: "nat \<Rightarrow> nat list \<Rightarrow> stencilFace \<Rightarrow> Scalar list \<Rightarrow> Scalar list" where
  "specFaceUpdate R regs face D =
     (let rI = regs ! insideElemIdx face;
          rO = regs ! outsideElemIdx face;
          candidate = candidateThreshold (extQuants face)
      in if rI = rO then D
         else if \<bar>doubleMul (faceArea face) (transmissibility face)\<bar> < double_1e_18 then D
         else D[rI * R + rO := max (D ! (rI * R + rO)) candidate,
                rO * R + rI := max (D ! (rO * R + rI)) candidate])"

text \<open>The region attribute of every cell can be read and names one of the declared
  regions \<open>1 .. getNumEquilRegions\<close> (the invariant \<open>regionId \<in> [0, R)\<close> of the data
  model, in the 1-based numbering of the deck).\<close>

definition validRegionData :: "simulator \<Rightarrow> bool" where
  "validRegionData sim =
     (\<forall>elemIdx<numElements sim.
        0 \<le> cartesianIndex sim elemIdx \<and>
        nat (cartesianIndex sim elemIdx) < length (EQLNUM sim) \<and>
        1 \<le> EQLNUM sim ! nat (cartesianIndex sim elemIdx) \<and>
        EQLNUM sim ! nat (cartesianIndex sim elemIdx) \<le> int (getNumEquilRegions sim))"

text \<open>The region of a cell as \<^verbatim>\<open>finishInit\<close> stores it.\<close>

definition regionOf :: "simulator \<Rightarrow> nat \<Rightarrow> nat" where
  "regionOf sim elemIdx = nat ((EQLNUM sim ! nat (cartesianIndex sim elemIdx) - 1) mod 256)"

text \<open>The regions of the cells, as \<^verbatim>\<open>finishInit\<close> stores them in
  \<^verbatim>\<open>elemEquilRegion_\<close>.\<close>

definition regions :: "simulator \<Rightarrow> nat list" where
  "regions sim = map (regionOf sim) [0..<numElements sim]"

text \<open>What the processes other than process \<open>p\<close> contribute to a collective call, when
  \<open>xs\<close> lists the contributions of all processes by rank.\<close>

definition othersOf :: "'a list \<Rightarrow> nat \<Rightarrow> 'a list" where
  "othersOf xs p = take p xs @ drop (Suc p) xs"

text \<open>The fault tables are consistent with the faults \<open>flts\<close> and the fault names
  \<open>names\<close>: there is one value per fault, and every cell is mapped either to \<open>-1\<close> (no
  fault) or to the index of a fault whose name is among \<open>names\<close>.\<close>

definition faultTablesOK :: "fault list \<Rightarrow> string set \<Rightarrow> Scalar list \<times> int list \<Rightarrow> bool" where
  "faultTablesOK flts names s =
     (length (fst s) = length flts \<and>
      (\<forall>x\<in>set (snd s).
         x = - 1 \<or> (0 \<le> x \<and> nat x < length flts \<and> faultName (flts ! nat x) \<in> names)))"

text \<open>A record of the THPRESFT keyword names the fault, so that its value is set.\<close>

definition faultIsSet :: "simulator \<Rightarrow> nat \<Rightarrow> bool" where
  "faultIsSet sim faultIdx =
     (case THPRESFT sim of
        None \<Rightarrow> False
      | Some thpresftKeyword \<Rightarrow> faultName (faults sim ! faultIdx) \<in> fst ` set thpresftKeyword)"

text \<open>The value of a fault index in the words of the specification: zero for a cell
  outside any fault and for a fault whose value is unset, the configured value
  otherwise.\<close>

definition faultValue :: "simulator \<Rightarrow> EclThresholdPressure \<Rightarrow> int \<Rightarrow> Scalar" where
  "faultValue sim st faultIdx =
     (if faultIdx < 0 then 0
      else if \<not> faultIsSet sim (nat faultIdx) then 0
      else thpresftValues st ! nat faultIdx)"

text \<open>Initialisation has completed: either \<^verbatim>\<open>finishInit\<close> has built the matrix on a
  run that is not a restart, or, on a restart run, \<^verbatim>\<open>finishInit\<close> has stored the
  regions and \<^verbatim>\<open>setFromRestart\<close> has injected the matrix that an initialised object
  of an earlier run of the same deck dimensions gave out through \<^verbatim>\<open>data()\<close>. The
  region attributes are those of the data model (\<open>validRegionData\<close>).\<close>

inductive initialised :: "simulator \<Rightarrow> EclThresholdPressure \<Rightarrow> bool" where
  construction:
    "\<lbrakk>finishInit sim (EclThresholdPressure_new junk) = Inr st; \<not> restart sim;
      validRegionData sim\<rbrakk> \<Longrightarrow> initialised sim st"
| restartInjection:
    "\<lbrakk>finishInit sim (EclThresholdPressure_new junk) = Inr st; restart sim;
      validRegionData sim; initialised sim0 st0; useThresholdPressure sim0;
      getNumEquilRegions sim0 = getNumEquilRegions sim\<rbrakk>
     \<Longrightarrow> initialised sim (setFromRestart (data st0) st)"

text \<open>What an initialised object satisfies.\<close>

definition tableOK :: "simulator \<Rightarrow> EclThresholdPressure \<Rightarrow> bool" where
  "tableOK sim st =
     (enableThresholdPressure st = useThresholdPressure sim \<and>
      (useThresholdPressure sim \<longrightarrow>
         numEquilRegions st = getNumEquilRegions sim \<and>
         elemEquilRegion st = regions sim \<and>
         (\<forall>r\<in>set (regions sim). r < getNumEquilRegions sim) \<and>
         length (thpres st) = getNumEquilRegions sim * getNumEquilRegions sim \<and>
         symmetricMatrix (getNumEquilRegions sim) (thpres st) \<and>
         (thpresftValues st \<noteq> [] \<longrightarrow>
            length (cartElemFaultIdx st) = getCartesianSize sim \<and>
            (\<forall>x\<in>set (cartElemFaultIdx st).
               x = - 1 \<or> (0 \<le> x \<and> nat x < length (thpresftValues st))))))"

text \<open>The vanguard maps every cell to a cell of the cartesian grid.\<close>

definition validCartesianIndex :: "simulator \<Rightarrow> bool" where
  "validCartesianIndex sim =
     (\<forall>elemIdx<numElements sim.
        0 \<le> cartesianIndex sim elemIdx \<and>
        nat (cartesianIndex sim elemIdx) < getCartesianSize sim)"

section \<open>Example reservoirs\<close>

text \<open>Two cells, cell 0 in region 0 and cell 1 in region 1, joined by one face that each
  of the two elements sees from its side. At the face one phase is mobile, with a
  pressure potential difference of magnitude \<open>2.5e5\<close>; the other two are immobile. Element 0
  also has an intersection on the boundary of the grid. A barrier is declared between
  every two different regions, without an explicit value.\<close>

definition exampleFace :: "nat \<Rightarrow> nat \<Rightarrow> stencilFace" where
  "exampleFace i j =
     \<lparr>insideElemIdx = i, outsideElemIdx = j, faceArea = 1, transmissibility = 1 / 1000,
      extQuants = [\<lparr>upMobility = 8 / 10, pressureDifference = - 250000\<rparr>,
                   \<lparr>upMobility = 0, pressureDifference = 900000\<rparr>,
                   \<lparr>upMobility = 0, pressureDifference = 1\<rparr>]\<rparr>"

definition exampleElements :: "element list" where
  "exampleElements =
     [\<lparr>interiorEntity = True, interiorFaces = [exampleFace 0 1],
       intersections = [\<lparr>isBoundary = True, isInside = 0, isOutside = 0\<rparr>,
                        \<lparr>isBoundary = False, isInside = 0, isOutside = 1\<rparr>]\<rparr>,
      \<lparr>interiorEntity = True, interiorFaces = [exampleFace 1 0],
       intersections = [\<lparr>isBoundary = False, isInside = 1, isOutside = 0\<rparr>]\<rparr>]"

definition exampleSim :: simulator where
  "exampleSim =
     \<lparr>numElements = 2, numGridDof = 2, cartesianIndex = int, useThresholdPressure = True,
      getNumEquilRegions = 2, EQLNUM = [1, 2], restart = False,
      hasRegionBarrier = (\<lambda>r1 r2. r1 \<noteq> r2),
      hasThresholdPressure = (\<lambda>r1 r2. False),
      getThresholdPressure = (\<lambda>r1 r2. 0),
      elements = exampleElements, commOthers = [], enableExperiments = False,
      THPRESFT = None, faults = [], getCartesianSize = 2\<rparr>"

text \<open>The elements of the small reservoir with another transmissibility at the face.\<close>

definition scaledElements :: "Scalar \<Rightarrow> element list" where
  "scaledElements t =
     map (\<lambda>elem. elem\<lparr>interiorFaces :=
                        map (\<lambda>face. face\<lparr>transmissibility := t\<rparr>) (interiorFaces elem)\<rparr>)
       exampleElements"

text \<open>The small reservoir with a face that is all but sealed: its transmissibility is
  \<open>1 / 10 ^ 19\<close>.\<close>

definition faintSim :: simulator where
  "faintSim = exampleSim\<lparr>elements := scaledElements (1 / 10000000000000000000)\<rparr>"

text \<open>A face in the manner of \<open>exampleFace\<close> whose area and transmissibility are
  the doubles \<open>50591172116917 / 2 ^ 45\<close> and \<open>902764736524431 / 2 ^ 110\<close>, with an exact
  product just below \<open>1 / 10 ^ 18\<close>; the product as the code computes it is the double
  \<^verbatim>\<open>1e-18\<close>.\<close>

definition borderlineFace :: stencilFace where
  "borderlineFace =
     exampleFace 0 1\<lparr>faceArea := 50591172116917 / 35184372088832,
                      transmissibility :=
                        902764736524431 / 1298074214633706907132624082305024\<rparr>"

text \<open>Three cells in a row, in the regions 0, 1 and 2: cell 1 has a face to each of the
  other two, which have no face in common. A barrier is declared between every two
  different regions, with the explicit value 42.\<close>

definition chainElements :: "element list" where
  "chainElements =
     [\<lparr>interiorEntity = True, interiorFaces = [exampleFace 0 1],
       intersections = [\<lparr>isBoundary = False, isInside = 0, isOutside = 1\<rparr>]\<rparr>,
      \<lparr>interiorEntity = True, interiorFaces = [exampleFace 1 0, exampleFace 1 2],
       intersections = [\<lparr>isBoundary = False, isInside = 1, isOutside = 0\<rparr>,
                        \<lparr>isBoundary = False, isInside = 1, isOutside = 2\<rparr>]\<rparr>,
      \<lparr>interiorEntity = True, interiorFaces = [exampleFace 2 1],
       intersections = [\<lparr>isBoundary = False, isInside = 2, isOutside = 1\<rparr>]\<rparr>]"

definition chainSim :: simulator where
  "chainSim =
     \<lparr>numElements = 3, numGridDof = 3, cartesianIndex = int, useThresholdPressure = True,
      getNumEquilRegions = 3, EQLNUM = [1, 2, 3], restart = False,
      hasRegionBarrier = (\<lambda>r1 r2. r1 \<noteq> r2),
      hasThresholdPressure = (\<lambda>r1 r2. True),
      getThresholdPressure = (\<lambda>r1 r2. 42),
      elements = chainElements, commOthers = [], enableExperiments = False,
      THPRESFT = None, faults = [], getCartesianSize = 3\<rparr>"

text \<open>The same grid where only the barriers of region 1 (number 2 in the deck) are
  declared, without explicit values.\<close>

definition chainSimDefaults :: simulator where
  "chainSimDefaults =
     chainSim\<lparr>hasRegionBarrier := (\<lambda>r1 r2. r1 \<noteq> r2 \<and> (r1 = 2 \<or> r2 = 2)),
              hasThresholdPressure := (\<lambda>r1 r2. False)\<rparr>"

text \<open>Two processes of one run. Each sees one face between region 0 and region 1 in its
  part of the grid; the mobile phase has a pressure potential difference of 5 on the
  first process and of 3 on the second.\<close>

definition partitionElements :: "Scalar \<Rightarrow> element list" where
  "partitionElements pd =
     [\<lparr>interiorEntity = True,
       interiorFaces =
         [exampleFace 0 1\<lparr>extQuants := [\<lparr>upMobility = 1, pressureDifference = pd\<rparr>]\<rparr>],
       intersections = []\<rparr>]"

definition partitionX :: simulator where
  "partitionX = exampleSim\<lparr>elements := partitionElements 5, commOthers := [[0, 3, 3, 0]]\<rparr>"

definition partitionY :: simulator where
  "partitionY = exampleSim\<lparr>elements := partitionElements 3, commOthers := [[0, 5, 5, 0]]\<rparr>"

text \<open>The object of either process when it enters
  \<^verbatim>\<open>computeDefaultThresholdPressures_\<close>.\<close>

definition partitionState :: EclThresholdPressure where
  "partitionState =
     \<lparr>thpresDefault = [0, 0, 0, 0], thpres = [0, 0, 0, 0], numEquilRegions = 2,
      elemEquilRegion = [0, 1], thpresftValues = [], cartElemFaultIdx = [],
      enableThresholdPressure = True\<rparr>"

text \<open>The small reservoir with two faults: cell 0 lies in fault \<open>F1\<close> with the value 3,
  cell 1 in fault \<open>F2\<close> with the value 7.\<close>

definition faultSim :: simulator where
  "faultSim =
     exampleSim\<lparr>enableExperiments := True,
                THPRESFT := Some [(''F1'', 3), (''F2'', 7)],
                faults := [\<lparr>faultName = ''F1'', faultFaces = [[0]]\<rparr>,
                           \<lparr>faultName = ''F2'', faultFaces = [[1]]\<rparr>]\<rparr>"

text \<open>The small reservoir with a sealed face and no declared barrier, where the deck
  gives cell 1 the region number 3 although only two regions are declared.\<close>

definition strayRegionSim :: simulator where
  "strayRegionSim =
     exampleSim\<lparr>EQLNUM := [1, 3], hasRegionBarrier := (\<lambda>r1 r2. False),
                elements := scaledElements 0\<rparr>"

text \<open>The small reservoir with one fault, where the input grid reports a cartesian size
  of 1 although the vanguard maps cell 1 to the cartesian index 1.\<close>

definition strayCartesianSim :: simulator where
  "strayCartesianSim =
     exampleSim\<lparr>enableExperiments := True,
                THPRESFT := Some [(''F1'', 3)],
                faults := [\<lparr>faultName = ''F1'', faultFaces = [[0]]\<rparr>],
                getCartesianSize := 1\<rparr>"

section \<open>Properties\<close>

subsection \<open>Rounding to double\<close>

lemma doubleUlp_normal:
  assumes lo: "2 powi e \<le> \<bar>x\<bar>" and hi: "\<bar>x\<bar> < 2 powi (e + 1)" and e: "- 1022 \<le> e"
  shows "doubleUlp x = 2 powi (e - 52)"
proof -
  define n where "n = nat (e + 1022)"
  have n: "int n = e + 1022" using e by (simp add: n_def)
  define m where "m = \<lfloor>\<bar>x\<bar> * 2 ^ 1022\<rfloor>"
  have "(2::real) powi (- 1022) \<le> 2 powi e" using e by (intro power_int_increasing) simp_all
  then have notsub: "\<not> \<bar>x\<bar> < 2 powi (- 1022)" using lo by linarith
  have p: "(2::real) powi e * 2 ^ 1022 = 2 ^ n"
    using n by (metis power_int_add power_int_of_nat zero_neq_numeral of_nat_numeral)
  have p1: "(2::real) powi (e + 1) * 2 ^ 1022 = 2 ^ (n + 1)"
    using p by (simp add: power_int_add)
  have "2 ^ n \<le> \<bar>x\<bar> * 2 ^ 1022"
    using lo p by (metis mult_right_mono zero_le_numeral zero_le_power)
  then have "of_int (2 ^ n) \<le> \<bar>x\<bar> * 2 ^ 1022" by simp
  then have lo_m: "2 ^ n \<le> m" unfolding m_def by (simp only: le_floor_iff)
  have "\<bar>x\<bar> * 2 ^ 1022 < 2 ^ (n + 1)"
    using hi p1 by (metis mult_strict_right_mono zero_less_numeral zero_less_power)
  then have "\<bar>x\<bar> * 2 ^ 1022 < of_int (2 ^ (n + 1))" by simp
  then have hi_m: "m < 2 ^ (n + 1)" unfolding m_def by (simp only: floor_less_iff)
  have "bitlen m \<le> int (n + 1)"
    using hi_m by (metis bitlen_le_iff_power nat_int of_nat_0_le_iff)
  moreover have "int (n + 1) \<le> bitlen m"
    using lo_m by (metis bitlen_ge_iff_power nat_int add_diff_cancel_right')
  ultimately have b: "bitlen m = e + 1023" using n by simp
  have "doubleUlp x = 2 powi (bitlen m - 1 - 1022 - 52)"
    unfolding doubleUlp_def Let_def m_def using notsub by (simp only: if_False)
  also have "bitlen m - 1 - 1022 - 52 = e - 52" using b by simp
  finally show ?thesis .
qed

lemma roundToDouble_normal:
  assumes "2 powi e \<le> \<bar>x\<bar>" and "\<bar>x\<bar> < 2 powi (e + 1)" and "- 1022 \<le> e"
  shows "roundToDouble x = of_int (roundHalfEven (x / 2 powi (e - 52))) * 2 powi (e - 52)"
  by (simp add: roundToDouble_def doubleUlp_normal [OF assms])

lemma doubleMul_zero: "doubleMul a 0 = 0"
  by (simp add: doubleMul_def roundToDouble_def roundHalfEven_def)

lemma doubleMul_example: "doubleMul 1 (1 / 1000) = 4611686018427388 / 2 ^ 62"
proof -
  have "roundToDouble (1 / 1000) =
      of_int (roundHalfEven ((1 / 1000) / 2 powi (- 10 - 52))) * 2 powi (- 10 - 52)"
    by (rule roundToDouble_normal) (simp_all add: power_int_minus)
  then show ?thesis
    by (simp add: doubleMul_def roundHalfEven_def Let_def power_int_minus)
qed

lemma doubleMul_faint:
  "doubleMul 1 (1 / 10000000000000000000) = 2076918743413931 / 2 ^ 114"
proof -
  have "roundToDouble (1 / 10000000000000000000) =
      of_int (roundHalfEven ((1 / 10000000000000000000) / 2 powi (- 64 - 52))) *
        2 powi (- 64 - 52)"
    by (rule roundToDouble_normal) (simp_all add: power_int_minus)
  then show ?thesis
    by (simp add: doubleMul_def roundHalfEven_def Let_def power_int_minus)
qed

lemma doubleMul_borderline:
  "doubleMul (50591172116917 / 35184372088832)
     (902764736524431 / 1298074214633706907132624082305024) = double_1e_18"
proof -
  let ?x = "(50591172116917 / 35184372088832) *
            (902764736524431 / 1298074214633706907132624082305024) :: real"
  have "roundToDouble ?x =
      of_int (roundHalfEven (?x / 2 powi (- 60 - 52))) * 2 powi (- 60 - 52)"
    by (rule roundToDouble_normal) (simp_all add: power_int_minus)
  then show ?thesis
    by (simp add: doubleMul_def double_1e_18_def roundHalfEven_def Let_def power_int_minus)
qed

lemma example_flow:
  "\<not> \<bar>doubleMul 1 (1 / 1000)\<bar> < double_1e_18"
  "\<bar>doubleMul 1 (1 / 10000000000000000000)\<bar> < double_1e_18"
  "\<bar>doubleMul 1 0\<bar> < double_1e_18"
  by (simp_all add: doubleMul_example doubleMul_faint doubleMul_zero double_1e_18_def)

subsection \<open>Offsets into the flattened matrix, and the override loop\<close>

lemma offset_inj:
  fixes R :: nat
  assumes "b < R" "d < R"
  shows "(a * R + b = c * R + d) = (a = c \<and> b = d)"
proof
  assume eq: "a * R + b = c * R + d"
  have "(a * R + b) div R = a" "(a * R + b) mod R = b" using assms by auto
  moreover have "(c * R + d) div R = c" "(c * R + d) mod R = d" using assms by auto
  ultimately show "a = c \<and> b = d" using eq by metis
qed auto

lemma offset_less:
  fixes R :: nat
  assumes "a < R" "b < R"
  shows "a * R + b < R * R"
proof -
  have "a * R + b < a * R + R" using assms by simp
  also have "\<dots> = (a + 1) * R" by simp
  also have "\<dots> \<le> R * R" using assms by (metis Suc_eq_plus1 Suc_leI mult_le_mono1)
  finally show ?thesis .
qed

lemma explicitIntersection_skip:
  assumes "explicitIntersection sim R regs D isect T = Inr T'"
    and "\<not> barrierAt sim regs isect"
  shows "T' = T"
  using assms
  by (auto simp: explicitIntersection_def Let_def barrierAt_def split: if_splits)

lemma explicitIntersection_write:
  assumes "explicitIntersection sim R regs D isect T = Inr T'"
    and "barrierAt sim regs isect"
    and "rI = regs ! isInside isect" and "rO = regs ! isOutside isect"
  shows "isInside isect < length regs \<and> isOutside isect < length regs \<and>
         rI * R + rO < length T \<and> rO * R + rI < length T \<and>
         T' = T[rI * R + rO := explicitValue sim R D rI rO,
                rO * R + rI := explicitValue sim R D rI rO]"
  using assms
  by (simp add: explicitIntersection_def Let_def barrierAt_def explicitValue_def
      split: if_splits)

lemma update2_nth:
  assumes "o1 < length T" and "o2 < length T"
  shows "T[o1 := p, o2 := p] ! k = (if k = o1 \<or> k = o2 then p else T ! k)"
  using assms by (simp add: nth_list_update)

lemma explicitIntersection_length:
  "explicitIntersection sim R regs D isect T = Inr T' \<Longrightarrow> length T' = length T"
  by (cases "barrierAt sim regs isect")
     (auto dest: explicitIntersection_skip explicitIntersection_write)

lemma explicitIntersection_untouched:
  assumes step: "explicitIntersection sim R regs D isect T = Inr T'"
    and regs: "\<forall>r\<in>set regs. r < R" and r: "r1 < R" "r2 < R"
    and no: "\<not> (barrierAt sim regs isect \<and> joins regs (isInside isect) (isOutside isect) r1 r2)"
  shows "T' ! (r1 * R + r2) = T ! (r1 * R + r2)"
proof (cases "barrierAt sim regs isect")
  case False
  then show ?thesis using explicitIntersection_skip [OF step] by simp
next
  case True
  define rI where "rI = regs ! isInside isect"
  define rO where "rO = regs ! isOutside isect"
  note w = explicitIntersection_write [OF step True rI_def rO_def]
  have lt: "rI < R" "rO < R" using w regs by (auto simp: rI_def rO_def)
  have nj: "\<not> (rI = r1 \<and> rO = r2)" "\<not> (rI = r2 \<and> rO = r1)"
    using no True w by (auto simp: joins_def rI_def rO_def)
  have "r1 * R + r2 \<noteq> rI * R + rO" "r1 * R + r2 \<noteq> rO * R + rI"
    using nj lt r by (auto simp: offset_inj)
  then show ?thesis using w by (simp add: update2_nth)
qed

lemma explicitIntersection_touched:
  assumes step: "explicitIntersection sim R regs D isect T = Inr T'"
    and regs: "\<forall>r\<in>set regs. r < R" and r: "r1 < R" "r2 < R"
    and b: "barrierAt sim regs isect"
    and j: "joins regs (isInside isect) (isOutside isect) r1 r2"
    and sym: "explicitValue sim R D r1 r2 = explicitValue sim R D r2 r1"
  shows "T' ! (r1 * R + r2) = explicitValue sim R D r1 r2"
proof -
  define rI where "rI = regs ! isInside isect"
  define rO where "rO = regs ! isOutside isect"
  note w = explicitIntersection_write [OF step b rI_def rO_def]
  from j have "(rI = r1 \<and> rO = r2) \<or> (rI = r2 \<and> rO = r1)"
    by (auto simp: joins_def rI_def rO_def)
  then show ?thesis
  proof
    assume "rI = r1 \<and> rO = r2"
    then show ?thesis using w by (simp add: update2_nth)
  next
    assume "rI = r2 \<and> rO = r1"
    then show ?thesis using w sym by (simp add: update2_nth)
  qed
qed

lemma explicitIntersection_symmetric:
  assumes step: "explicitIntersection sim R regs D isect T = Inr T'"
    and regs: "\<forall>r\<in>set regs. r < R" and sym: "symmetricMatrix R T"
  shows "symmetricMatrix R T'"
proof (cases "barrierAt sim regs isect")
  case False
  then show ?thesis using explicitIntersection_skip [OF step] sym by simp
next
  case True
  define rI where "rI = regs ! isInside isect"
  define rO where "rO = regs ! isOutside isect"
  note w = explicitIntersection_write [OF step True rI_def rO_def]
  have lt: "rI < R" "rO < R" using w regs by (auto simp: rI_def rO_def)
  show ?thesis
    unfolding symmetricMatrix_def
  proof (intro allI impI)
    fix r1 r2 assume r: "r1 < R" "r2 < R"
    have "(r1 * R + r2 = rI * R + rO \<or> r1 * R + r2 = rO * R + rI) =
          (r2 * R + r1 = rI * R + rO \<or> r2 * R + r1 = rO * R + rI)"
      using lt r by (auto simp: offset_inj)
    moreover have "T ! (r1 * R + r2) = T ! (r2 * R + r1)"
      using sym r by (simp add: symmetricMatrix_def)
    ultimately show "T' ! (r1 * R + r2) = T' ! (r2 * R + r1)"
      using w by (simp add: update2_nth)
  qed
qed

lemma explicitIntersections_append:
  "explicitIntersections sim R regs D (xs @ ys) T =
     (case explicitIntersections sim R regs D xs T of
        Inl e \<Rightarrow> Inl e
      | Inr T' \<Rightarrow> explicitIntersections sim R regs D ys T')"
  by (induction xs arbitrary: T) (auto split: sum.splits)

lemma explicitElements_flat:
  "explicitElements sim R regs D els T =
     explicitIntersections sim R regs D (visitedIntersections els) T"
  by (induction els arbitrary: T)
     (auto simp: visitedIntersections_def explicitIntersections_append split: sum.splits)

lemma explicitIntersections_length:
  "explicitIntersections sim R regs D is T = Inr T' \<Longrightarrow> length T' = length T"
  by (induction "is" arbitrary: T) (auto split: sum.splits dest: explicitIntersection_length)

lemma explicitIntersections_symmetric:
  assumes "explicitIntersections sim R regs D is T = Inr T'"
    and "\<forall>r\<in>set regs. r < R" and "symmetricMatrix R T"
  shows "symmetricMatrix R T'"
  using assms
  by (induction "is" arbitrary: T) (auto split: sum.splits dest: explicitIntersection_symmetric)

lemma explicitIntersections_untouched:
  assumes "explicitIntersections sim R regs D is T = Inr T'"
    and "\<forall>r\<in>set regs. r < R" and "r1 < R" and "r2 < R"
    and "\<forall>isect\<in>set is.
           \<not> (barrierAt sim regs isect \<and> joins regs (isInside isect) (isOutside isect) r1 r2)"
  shows "T' ! (r1 * R + r2) = T ! (r1 * R + r2)"
  using assms
proof (induction "is" arbitrary: T)
  case Nil
  then show ?case by simp
next
  case (Cons isect rest)
  from Cons.prems(1) obtain T1 where
    step: "explicitIntersection sim R regs D isect T = Inr T1" and
    tail: "explicitIntersections sim R regs D rest T1 = Inr T'"
    by (auto split: sum.splits)
  have "T1 ! (r1 * R + r2) = T ! (r1 * R + r2)"
    using explicitIntersection_untouched [OF step Cons.prems(2,3,4)] Cons.prems(5) by simp
  moreover have "T' ! (r1 * R + r2) = T1 ! (r1 * R + r2)"
    using Cons.IH [OF tail Cons.prems(2,3,4)] Cons.prems(5) by simp
  ultimately show ?case by simp
qed

lemma explicitIntersections_touched:
  assumes "explicitIntersections sim R regs D is T = Inr T'"
    and "\<forall>r\<in>set regs. r < R" and "r1 < R" and "r2 < R"
    and "explicitValue sim R D r1 r2 = explicitValue sim R D r2 r1"
    and "(\<exists>isect\<in>set is.
            barrierAt sim regs isect \<and> joins regs (isInside isect) (isOutside isect) r1 r2)
         \<or> T ! (r1 * R + r2) = explicitValue sim R D r1 r2"
  shows "T' ! (r1 * R + r2) = explicitValue sim R D r1 r2"
  using assms(1,6)
proof (induction "is" arbitrary: T)
  case Nil
  then show ?case by simp
next
  case (Cons isect rest)
  from Cons.prems(1) obtain T1 where
    step: "explicitIntersection sim R regs D isect T = Inr T1" and
    tail: "explicitIntersections sim R regs D rest T1 = Inr T'"
    by (auto split: sum.splits)
  show ?case
  proof (cases "barrierAt sim regs isect \<and> joins regs (isInside isect) (isOutside isect) r1 r2")
    case True
    then have "T1 ! (r1 * R + r2) = explicitValue sim R D r1 r2"
      using explicitIntersection_touched [OF step assms(2,3,4) _ _ assms(5)] by simp
    then show ?thesis using Cons.IH [OF tail] by simp
  next
    case False
    then have "T1 ! (r1 * R + r2) = T ! (r1 * R + r2)"
      using explicitIntersection_untouched [OF step assms(2,3,4)] by simp
    then show ?thesis using Cons.IH [OF tail] Cons.prems(2) False by auto
  qed
qed

subsection \<open>The scan of the default estimator\<close>

lemma phaseLoop_fold:
  "phaseLoop qs pth =
     fold max (map (\<lambda>q. \<bar>pressureDifference q\<bar>) (filter (\<lambda>q. upMobility q > 0) qs)) pth"
  by (induction qs arbitrary: pth) (simp_all add: max.commute)

lemma phaseLoop_candidate: "phaseLoop qs 0 = candidateThreshold qs"
proof -
  define vs where
    "vs = map (\<lambda>q. \<bar>pressureDifference q\<bar>) (filter (\<lambda>q. upMobility q > 0) qs)"
  have img: "(\<lambda>q. \<bar>pressureDifference q\<bar>) ` set (filter (\<lambda>q. upMobility q > 0) qs) = set vs"
    by (simp add: vs_def)
  have ex: "(filter (\<lambda>q. upMobility q > 0) qs = []) = (vs = [])"
    by (simp add: vs_def)
  have loop: "phaseLoop qs 0 = Max (set (0 # vs))"
    unfolding Max.set_eq_fold by (simp add: phaseLoop_fold vs_def)
  show ?thesis
  proof (cases "vs = []")
    case True
    then show ?thesis using loop ex by (simp add: candidateThreshold_def)
  next
    case False
    have "\<forall>x\<in>set vs. 0 \<le> x" by (auto simp: vs_def)
    then have "0 \<le> Max (set vs)" using False
      by (metis List.finite_set Max_in set_empty)
    then have "Max (set (0 # vs)) = Max (set vs)" using False by (simp add: max_def)
    then show ?thesis using loop ex False img by (simp add: candidateThreshold_def)
  qed
qed

lemma phaseLoop_nonneg: "0 \<le> pth \<Longrightarrow> 0 \<le> phaseLoop qs pth"
  by (induction qs arbitrary: pth) auto

lemma defaultFace_skip:
  assumes "defaultFace R regs face D = Inr D'"
    and "regs ! insideElemIdx face = regs ! outsideElemIdx face \<or>
         \<bar>doubleMul (faceArea face) (transmissibility face)\<bar> < double_1e_18"
  shows "D' = D"
  using assms by (auto simp: defaultFace_def Let_def split: if_splits)

lemma defaultFace_write:
  assumes "defaultFace R regs face D = Inr D'"
    and "regs ! insideElemIdx face \<noteq> regs ! outsideElemIdx face"
    and "\<not> \<bar>doubleMul (faceArea face) (transmissibility face)\<bar> < double_1e_18"
    and "rI = regs ! insideElemIdx face" and "rO = regs ! outsideElemIdx face"
    and "pth = phaseLoop (extQuants face) 0"
  shows "insideElemIdx face < length regs \<and> outsideElemIdx face < length regs \<and>
         rI * R + rO < length D \<and> rO * R + rI < length D \<and>
         D' = (D[rI * R + rO := max (D ! (rI * R + rO)) pth])
                [rO * R + rI := max (D[rI * R + rO := max (D ! (rI * R + rO)) pth] ! (rO * R + rI)) pth]"
  using assms by (simp add: defaultFace_def Let_def split: if_splits)

lemma defaultFace_length:
  "defaultFace R regs face D = Inr D' \<Longrightarrow> length D' = length D"
  by (auto simp: defaultFace_def Let_def split: if_splits)

lemma defaultFace_untouched:
  assumes step: "defaultFace R regs face D = Inr D'"
    and regs: "\<forall>r\<in>set regs. r < R" and r: "r1 < R" "r2 < R"
    and no: "\<not> faceJoins regs face r1 r2"
  shows "D' ! (r1 * R + r2) = D ! (r1 * R + r2)"
proof (cases "regs ! insideElemIdx face = regs ! outsideElemIdx face \<or>
         \<bar>doubleMul (faceArea face) (transmissibility face)\<bar> < double_1e_18")
  case True
  then show ?thesis using defaultFace_skip [OF step] by simp
next
  case False
  define rI where "rI = regs ! insideElemIdx face"
  define rO where "rO = regs ! outsideElemIdx face"
  define pth where "pth = phaseLoop (extQuants face) 0"
  from False have ne: "regs ! insideElemIdx face \<noteq> regs ! outsideElemIdx face"
    and big: "\<not> \<bar>doubleMul (faceArea face) (transmissibility face)\<bar> < double_1e_18" by auto
  note w = defaultFace_write [OF step ne big rI_def rO_def pth_def]
  have lt: "rI < R" "rO < R" using w regs by (auto simp: rI_def rO_def)
  have nj: "\<not> (rI = r1 \<and> rO = r2)" "\<not> (rI = r2 \<and> rO = r1)"
    using no w by (auto simp: faceJoins_def joins_def rI_def rO_def)
  have "r1 * R + r2 \<noteq> rI * R + rO" "r1 * R + r2 \<noteq> rO * R + rI"
    using nj lt r by (auto simp: offset_inj)
  then show ?thesis using w by (simp add: nth_list_update)
qed

lemma defaultFace_symmetric:
  assumes step: "defaultFace R regs face D = Inr D'"
    and regs: "\<forall>r\<in>set regs. r < R" and sym: "symmetricMatrix R D"
  shows "symmetricMatrix R D'"
proof (cases "regs ! insideElemIdx face = regs ! outsideElemIdx face \<or>
         \<bar>doubleMul (faceArea face) (transmissibility face)\<bar> < double_1e_18")
  case True
  then show ?thesis using defaultFace_skip [OF step] sym by simp
next
  case False
  define rI where "rI = regs ! insideElemIdx face"
  define rO where "rO = regs ! outsideElemIdx face"
  define pth where "pth = phaseLoop (extQuants face) 0"
  from False have ne: "regs ! insideElemIdx face \<noteq> regs ! outsideElemIdx face"
    and big: "\<not> \<bar>doubleMul (faceArea face) (transmissibility face)\<bar> < double_1e_18" by auto
  note w = defaultFace_write [OF step ne big rI_def rO_def pth_def]
  have lt: "rI < R" "rO < R" using w regs by (auto simp: rI_def rO_def)
  have neq: "rI * R + rO \<noteq> rO * R + rI" using ne lt by (auto simp: offset_inj rI_def rO_def)
  have symIO: "D ! (rI * R + rO) = D ! (rO * R + rI)"
    using sym lt by (simp add: symmetricMatrix_def)
  have D': "D' = D[rI * R + rO := max (D ! (rI * R + rO)) pth,
                  rO * R + rI := max (D ! (rI * R + rO)) pth]"
    using w neq symIO by simp
  show ?thesis
    unfolding symmetricMatrix_def
  proof (intro allI impI)
    fix r1 r2 assume r: "r1 < R" "r2 < R"
    have "(r1 * R + r2 = rI * R + rO \<or> r1 * R + r2 = rO * R + rI) =
          (r2 * R + r1 = rI * R + rO \<or> r2 * R + r1 = rO * R + rI)"
      using lt r by (auto simp: offset_inj)
    moreover have "D ! (r1 * R + r2) = D ! (r2 * R + r1)"
      using sym r by (simp add: symmetricMatrix_def)
    moreover have "rI * R + rO < length D" "rO * R + rI < length D" using w by simp_all
    ultimately show "D' ! (r1 * R + r2) = D' ! (r2 * R + r1)"
      unfolding D' by (simp add: update2_nth)
  qed
qed

lemma defaultFaces_append:
  "defaultFaces R regs (xs @ ys) D =
     (case defaultFaces R regs xs D of
        Inl e \<Rightarrow> Inl e
      | Inr D' \<Rightarrow> defaultFaces R regs ys D')"
  by (induction xs arbitrary: D) (auto split: sum.splits)

lemma defaultElements_flat:
  "defaultElements R regs els D = defaultFaces R regs (visitedFaces els) D"
  by (induction els arbitrary: D)
     (auto simp: visitedFaces_def defaultFaces_append split: sum.splits)

lemma defaultFaces_length:
  "defaultFaces R regs fs D = Inr D' \<Longrightarrow> length D' = length D"
  by (induction fs arbitrary: D) (auto split: sum.splits dest: defaultFace_length)

lemma defaultFaces_symmetric:
  assumes "defaultFaces R regs fs D = Inr D'"
    and "\<forall>r\<in>set regs. r < R" and "symmetricMatrix R D"
  shows "symmetricMatrix R D'"
  using assms
  by (induction fs arbitrary: D) (auto split: sum.splits dest: defaultFace_symmetric)

lemma defaultFaces_untouched:
  assumes "defaultFaces R regs fs D = Inr D'"
    and "\<forall>r\<in>set regs. r < R" and "r1 < R" and "r2 < R"
    and "\<forall>face\<in>set fs. \<not> faceJoins regs face r1 r2"
  shows "D' ! (r1 * R + r2) = D ! (r1 * R + r2)"
  using assms
proof (induction fs arbitrary: D)
  case Nil
  then show ?case by simp
next
  case (Cons face rest)
  from Cons.prems(1) obtain D1 where
    step: "defaultFace R regs face D = Inr D1" and
    tail: "defaultFaces R regs rest D1 = Inr D'"
    by (auto split: sum.splits)
  have "D1 ! (r1 * R + r2) = D ! (r1 * R + r2)"
    using defaultFace_untouched [OF step Cons.prems(2,3,4)] Cons.prems(5) by simp
  moreover have "D' ! (r1 * R + r2) = D1 ! (r1 * R + r2)"
    using Cons.IH [OF tail Cons.prems(2,3,4)] Cons.prems(5) by simp
  ultimately show ?case by simp
qed

subsection \<open>The only exception is the one finishInit throws\<close>

lemma internalizeEqlnum_error:
  "internalizeEqlnum cart d es regs = Inl e \<Longrightarrow> e = OutOfBounds"
  by (induction es arbitrary: regs) (auto simp: Let_def split: if_splits)

lemma defaultFace_error: "defaultFace R regs face D = Inl e \<Longrightarrow> e = OutOfBounds"
  by (auto simp: defaultFace_def Let_def split: if_splits)

lemma defaultFaces_error: "defaultFaces R regs fs D = Inl e \<Longrightarrow> e = OutOfBounds"
  by (induction fs arbitrary: D) (auto split: sum.splits dest: defaultFace_error)

lemma defaultElements_error: "defaultElements R regs els D = Inl e \<Longrightarrow> e = OutOfBounds"
  by (induction els arbitrary: D) (auto split: sum.splits if_splits dest: defaultFaces_error)

lemma explicitIntersection_error:
  "explicitIntersection sim R regs D isect T = Inl e \<Longrightarrow> e = OutOfBounds"
  by (auto simp: explicitIntersection_def Let_def split: if_splits)

lemma explicitIntersections_error:
  "explicitIntersections sim R regs D is T = Inl e \<Longrightarrow> e = OutOfBounds"
  by (induction "is" arbitrary: T) (auto split: sum.splits dest: explicitIntersection_error)

lemma explicitElements_error:
  "explicitElements sim R regs D els T = Inl e \<Longrightarrow> e = OutOfBounds"
  by (induction els arbitrary: T)
     (auto split: sum.splits if_splits dest: explicitIntersections_error)

lemma markFaultCells_error: "markFaultCells f cs cfi = Inl e \<Longrightarrow> e = OutOfBounds"
  by (induction cs arbitrary: cfi) (auto split: if_splits)

lemma faultLoop_error: "faultLoop name v f flts s = Inl e \<Longrightarrow> e = OutOfBounds"
  by (induction name v f flts s rule: faultLoop.induct)
     (auto split: sum.splits if_splits dest: markFaultCells_error)

lemma recordLoop_error: "recordLoop flts recs s = Inl e \<Longrightarrow> e = OutOfBounds"
  by (induction flts recs s rule: recordLoop.induct)
     (auto split: sum.splits dest: faultLoop_error)

lemma extractThpresft_error: "extractThpresft sim kw st = Inl e \<Longrightarrow> e = OutOfBounds"
  by (auto simp: extractThpresft_def Let_def split: sum.splits prod.splits dest: recordLoop_error)

lemma computeDefault_error:
  "computeDefaultThresholdPressures sim st = Inl e \<Longrightarrow> e = OutOfBounds"
  by (auto simp: computeDefaultThresholdPressures_def scanDefault_def split: sum.splits
      dest: defaultElements_error)

lemma applyExplicit_error:
  "applyExplicitThresholdPressures sim st = Inl e \<Longrightarrow> e = OutOfBounds"
  by (auto simp: applyExplicitThresholdPressures_def Let_def
      split: sum.splits if_splits option.splits
      dest: explicitElements_error extractThpresft_error)

subsection \<open>Region count\<close>

text \<open>
  Claim C9. With the threshold pressure feature enabled, \<^verbatim>\<open>finishInit\<close> throws its
  runtime error as soon as the number of equilibration regions exceeds 255, before any
  of the vectors is allocated: the object the throw leaves behind differs from the one
  before the call only in the flag and the region count. With 255 regions or fewer the
  runtime error is never thrown.
\<close>

theorem finishInit_region_limit:
  assumes "numGridDof sim = numElements sim" and "useThresholdPressure sim"
  shows "(getNumEquilRegions sim > 255 \<longrightarrow>
           finishInit sim st =
             Inl (RuntimeError ''The maximum number of supported equilibration regions is 255!''
                    (st\<lparr>enableThresholdPressure := True,
                        numEquilRegions := getNumEquilRegions sim\<rparr>))) \<and>
         (getNumEquilRegions sim \<le> 255 \<longrightarrow>
           (\<forall>msg s. finishInit sim st \<noteq> Inl (RuntimeError msg s)))"
  using assms
  by (auto simp: finishInit_def Let_def split: sum.splits if_splits
      dest: internalizeEqlnum_error computeDefault_error applyExplicit_error)

theorem finishInit_region_limit_witness:
  "finishInit (exampleSim\<lparr>getNumEquilRegions := 256\<rparr>) (EclThresholdPressure_new 0) =
     Inl (RuntimeError ''The maximum number of supported equilibration regions is 255!''
            \<lparr>thpresDefault = [], thpres = [], numEquilRegions = 256, elemEquilRegion = [],
             thpresftValues = [], cartElemFaultIdx = [], enableThresholdPressure = True\<rparr>) \<and>
   finishInit (exampleSim\<lparr>getNumEquilRegions := 255\<rparr>) (EclThresholdPressure_new 0) \<noteq>
     Inl (RuntimeError [] (EclThresholdPressure_new 0))"
  using finishInit_region_limit [of "exampleSim\<lparr>getNumEquilRegions := 256\<rparr>" "EclThresholdPressure_new 0"]
    finishInit_region_limit [of "exampleSim\<lparr>getNumEquilRegions := 255\<rparr>" "EclThresholdPressure_new 0"]
  by (simp add: exampleSim_def EclThresholdPressure_new_def)

subsection \<open>The faces of the default estimator\<close>

lemma defaultFace_step:
  assumes "insideElemIdx face < length regs" and "outsideElemIdx face < length regs"
    and "\<forall>r\<in>set regs. r < R" and "length D = R * R"
  shows "defaultFace R regs face D = Inr (specFaceUpdate R regs face D)"
proof -
  define rI where "rI = regs ! insideElemIdx face"
  define rO where "rO = regs ! outsideElemIdx face"
  have r: "rI < R" "rO < R" using assms(1,2,3) by (simp_all add: rI_def rO_def)
  have lt: "rI * R + rO < length D" "rO * R + rI < length D"
    using r assms(4) by (simp_all add: offset_less)
  show ?thesis
  proof (cases "rI = rO")
    case True
    then show ?thesis
      unfolding defaultFace_def specFaceUpdate_def Let_def rI_def [symmetric] rO_def [symmetric]
      using assms(1,2) by simp
  next
    case False
    then have ne: "rO * R + rI \<noteq> rI * R + rO" using r by (simp add: offset_inj)
    show ?thesis
      unfolding defaultFace_def specFaceUpdate_def Let_def rI_def [symmetric] rO_def [symmetric]
      using assms(1,2) lt ne False by (simp add: phaseLoop_candidate)
  qed
qed

lemma specFaceUpdate_length: "length (specFaceUpdate R regs face D) = length D"
  by (simp add: specFaceUpdate_def Let_def)

lemma defaultFaces_fold:
  assumes "\<forall>face\<in>set fs. insideElemIdx face < length regs \<and> outsideElemIdx face < length regs"
    and "\<forall>r\<in>set regs. r < R" and "length D = R * R"
  shows "defaultFaces R regs fs D = Inr (fold (specFaceUpdate R regs) fs D)"
  using assms
proof (induction fs arbitrary: D)
  case Nil
  then show ?case by simp
next
  case (Cons face fs)
  have step: "defaultFace R regs face D = Inr (specFaceUpdate R regs face D)"
    using Cons.prems by (intro defaultFace_step) simp_all
  have "defaultFaces R regs fs (specFaceUpdate R regs face D) =
          Inr (fold (specFaceUpdate R regs) fs (specFaceUpdate R regs face D))"
    using Cons.prems by (intro Cons.IH) (simp_all add: specFaceUpdate_length)
  then show ?case using step by simp
qed

text \<open>
  Claim C2. The default estimator treats every interior face, that is every face of the
  stencil of every interior element, in turn, as the specification says
  (\<open>specFaceUpdate\<close>): a face between cells of one region, or with
  \<open>|area * transmissibility| < 1e-18\<close>, leaves the default matrix alone; any other face
  raises both entries \<open>(rI, rO)\<close> and \<open>(rO, rI)\<close> of its region pair to the maximum of
  what they hold and the candidate threshold of the face, the largest absolute pressure
  potential difference among the phases of positive upstream mobility (phases of
  mobility zero or less count for nothing), and changes no other entry. The product is
  the product of the two doubles as the code computes it and the bound is the double
  \<^verbatim>\<open>1e-18\<close>. \<^verbatim>\<open>computeDefaultThresholdPressures_\<close> stores the result of the scan after
  the reduction over the processes.
\<close>

theorem defaultEstimator_spec:
  assumes "R = numEquilRegions st" and "regs = elemEquilRegion st"
    and "\<forall>face\<in>set (visitedFaces (elements sim)).
           insideElemIdx face < length regs \<and> outsideElemIdx face < length regs"
    and "\<forall>r\<in>set regs. r < R" and "length (thpresDefault st) = R * R"
  shows "scanDefault sim st =
           Inr (fold (specFaceUpdate R regs) (visitedFaces (elements sim)) (thpresDefault st)) \<and>
         computeDefaultThresholdPressures sim st =
           Inr (st\<lparr>thpresDefault :=
                  reduceDefault (commOthers sim)
                    (fold (specFaceUpdate R regs) (visitedFaces (elements sim))
                       (thpresDefault st))\<rparr>)"
proof -
  have "scanDefault sim st =
          Inr (fold (specFaceUpdate R regs) (visitedFaces (elements sim)) (thpresDefault st))"
    unfolding scanDefault_def defaultElements_flat assms(1,2) [symmetric]
    by (rule defaultFaces_fold [OF assms(3,4,5)])
  then show ?thesis by (simp add: computeDefaultThresholdPressures_def)
qed

lemma scaledElements_faces:
  "visitedFaces (scaledElements t) =
     [exampleFace 0 1\<lparr>transmissibility := t\<rparr>, exampleFace 1 0\<lparr>transmissibility := t\<rparr>]"
  "visitedFaces exampleElements = [exampleFace 0 1, exampleFace 1 0]"
  by (simp_all add: visitedFaces_def scaledElements_def exampleElements_def)

theorem defaultEstimator_spec_witness:
  "scanDefault exampleSim partitionState = Inr [0, 250000, 250000, 0] \<and>
   scanDefault faintSim (partitionState\<lparr>thpresDefault := [0, 7, 7, 0]\<rparr>) = Inr [0, 7, 7, 0] \<and>
   scanDefault exampleSim (partitionState\<lparr>thpresDefault := [0, 300000, 7, 0]\<rparr>) =
     Inr [0, 300000, 250000, 0]"
proof -
  have faces: "\<forall>face\<in>set (visitedFaces (elements exampleSim)).
      insideElemIdx face < length [0, 1 :: nat] \<and> outsideElemIdx face < length [0, 1 :: nat]"
    "\<forall>face\<in>set (visitedFaces (elements faintSim)).
      insideElemIdx face < length [0, 1 :: nat] \<and> outsideElemIdx face < length [0, 1 :: nat]"
    by (simp_all add: exampleSim_def faintSim_def scaledElements_faces exampleFace_def)
  have regs: "\<forall>r\<in>set [0, 1 :: nat]. r < 2" by simp
  have c: "candidateThreshold (extQuants (exampleFace i j)) = 250000" for i j
    by (simp add: candidateThreshold_def exampleFace_def)
  have f1: "fold (specFaceUpdate 2 [0, 1]) (visitedFaces (elements exampleSim)) [0, 0, 0, 0] =
      [0, 250000, 250000, 0]"
    by (simp add: exampleSim_def scaledElements_faces specFaceUpdate_def Let_def c)
       (simp add: exampleFace_def example_flow)
  have f2: "fold (specFaceUpdate 2 [0, 1]) (visitedFaces (elements faintSim)) [0, 7, 7, 0] =
      [0, 7, 7, 0]"
    by (simp add: exampleSim_def faintSim_def scaledElements_faces specFaceUpdate_def Let_def)
       (simp add: exampleFace_def example_flow)
  have f3: "fold (specFaceUpdate 2 [0, 1]) (visitedFaces (elements exampleSim)) [0, 300000, 7, 0] =
      [0, 300000, 250000, 0]"
    by (simp add: exampleSim_def scaledElements_faces specFaceUpdate_def Let_def c)
       (simp add: exampleFace_def example_flow)
  have st: "2 = numEquilRegions (partitionState\<lparr>thpresDefault := D\<rparr>)"
    "[0, 1] = elemEquilRegion (partitionState\<lparr>thpresDefault := D\<rparr>)"
    "thpresDefault (partitionState\<lparr>thpresDefault := D\<rparr>) = D"
    "partitionState\<lparr>thpresDefault := [0, 0, 0, 0]\<rparr> = partitionState" for D
    by (simp_all add: partitionState_def)
  have len: "length (thpresDefault (partitionState\<lparr>thpresDefault := D\<rparr>)) = 2 * 2"
    if "length D = 4" for D
    using that by (simp add: partitionState_def)
  note t1 = defaultEstimator_spec [OF st(1,2) faces(1) regs len, of "[0, 0, 0, 0]"]
  note t2 = defaultEstimator_spec [OF st(1,2) faces(2) regs len, of "[0, 7, 7, 0]"]
  note t3 = defaultEstimator_spec [OF st(1,2) faces(1) regs len, of "[0, 300000, 7, 0]"]
  have z: "thpresDefault partitionState = [0, 0, 0, 0]" by (simp add: partitionState_def)
  show ?thesis
    using t1 t2 t3 unfolding st(3) st(4) z f1 f2 f3 by simp
qed

text \<open>The tolerance is tested on the rounded product: the exact product of the area
  and the transmissibility of \<open>borderlineFace\<close> lies below \<open>1 / 10 ^ 18\<close>, and the
  estimator still takes the face into account.\<close>

lemma defaultFace_rounds_product:
  "faceArea borderlineFace * transmissibility borderlineFace < 1 / 10 ^ 18 \<and>
   defaultFace 2 [0, 1] borderlineFace [0, 0, 0, 0] = Inr [0, 250000, 250000, 0]"
proof -
  have "\<not> \<bar>doubleMul (faceArea borderlineFace) (transmissibility borderlineFace)\<bar> < double_1e_18"
    by (simp add: borderlineFace_def exampleFace_def doubleMul_borderline)
  then have "defaultFace 2 [0, 1] borderlineFace [0, 0, 0, 0] = Inr [0, 250000, 250000, 0]"
    by (simp add: defaultFace_def Let_def) (simp add: borderlineFace_def exampleFace_def)
  moreover have "faceArea borderlineFace * transmissibility borderlineFace < 1 / 10 ^ 18"
    by (simp add: borderlineFace_def exampleFace_def)
  ultimately show ?thesis by simp
qed

subsection \<open>What finishInit leaves in the object\<close>

lemma resize_empty: "resize [] n x = replicate n x"
  by (simp add: resize_def)

lemma internalizeEqlnum_result:
  assumes "internalizeEqlnum cart d es regs0 = Inr regs"
  shows "length regs = length regs0 \<and>
         (\<forall>e. regs ! e = (if e \<in> set es then nat ((d ! nat (cart e) - 1) mod 256) else regs0 ! e))"
  using assms
proof (induction es arbitrary: regs0)
  case Nil
  then show ?case by simp
next
  case (Cons a es)
  let ?regs1 = "regs0[a := nat ((d ! nat (cart a) - 1) mod 256)]"
  from Cons.prems have ok: "a < length regs0"
    and tail: "internalizeEqlnum cart d es ?regs1 = Inr regs"
    by (auto simp: Let_def split: if_splits)
  from Cons.IH [OF tail] ok show ?case
    by (auto simp: nth_list_update)
qed

lemma internalizeEqlnum_regionOf:
  assumes "internalizeEqlnum (cartesianIndex sim) (EQLNUM sim) [0..<n] (replicate n 0) = Inr regs"
  shows "length regs = n" and "\<forall>e<n. regs ! e = regionOf sim e"
  using internalizeEqlnum_result [OF assms] by (simp_all add: regionOf_def)

lemma regionOf_valid:
  assumes "validRegionData sim" and "getNumEquilRegions sim \<le> 255" and "e < numElements sim"
  shows "regionOf sim e < getNumEquilRegions sim"
proof -
  define d where "d = EQLNUM sim ! nat (cartesianIndex sim e)"
  have d: "1 \<le> d" "d \<le> int (getNumEquilRegions sim)"
    using assms(1,3) by (simp_all add: validRegionData_def d_def)
  then have "(d - 1) mod 256 = d - 1" using assms(2) by simp
  then show ?thesis using d by (simp add: regionOf_def d_def [symmetric])
qed

lemma finishInit_restart:
  assumes "finishInit sim (EclThresholdPressure_new junk) = Inr st"
    and "useThresholdPressure sim" and "restart sim"
  shows "\<exists>regs. internalizeEqlnum (cartesianIndex sim) (EQLNUM sim) [0..<numElements sim]
                   (replicate (numElements sim) 0) = Inr regs \<and>
           st = \<lparr>thpresDefault = [], thpres = [], numEquilRegions = getNumEquilRegions sim,
                 elemEquilRegion = regs, thpresftValues = [], cartElemFaultIdx = [],
                 enableThresholdPressure = True\<rparr>"
  using assms
  by (auto simp: finishInit_def Let_def EclThresholdPressure_new_def resize_empty
      split: if_splits sum.splits)

lemma finishInit_construct:
  assumes "finishInit sim (EclThresholdPressure_new junk) = Inr st"
    and "useThresholdPressure sim" and "\<not> restart sim"
  obtains regs D0 T where
    "getNumEquilRegions sim \<le> 255"
    "internalizeEqlnum (cartesianIndex sim) (EQLNUM sim) [0..<numElements sim]
       (replicate (numElements sim) 0) = Inr regs"
    "defaultElements (getNumEquilRegions sim) regs (elements sim)
       (replicate (getNumEquilRegions sim * getNumEquilRegions sim) 0) = Inr D0"
    "explicitElements sim (getNumEquilRegions sim) regs (reduceDefault (commOthers sim) D0)
       (elements sim) (replicate (getNumEquilRegions sim * getNumEquilRegions sim) 0) = Inr T"
    "thpres st = T" "thpresDefault st = reduceDefault (commOthers sim) D0"
    "elemEquilRegion st = regs" "numEquilRegions st = getNumEquilRegions sim"
    "enableThresholdPressure st"
    "if enableExperiments sim \<and> THPRESFT sim \<noteq> None
     then recordLoop (faults sim) (the (THPRESFT sim))
            (replicate (length (faults sim)) (- 1), replicate (getCartesianSize sim) (- 1)) =
          Inr (thpresftValues st, cartElemFaultIdx st)
     else thpresftValues st = [] \<and> cartElemFaultIdx st = []"
proof -
  from assms have le: "getNumEquilRegions sim \<le> 255"
    by (auto simp: finishInit_def Let_def split: if_splits)
  let ?R = "getNumEquilRegions sim"
  from assms le obtain regs where
    regs: "internalizeEqlnum (cartesianIndex sim) (EQLNUM sim) [0..<numElements sim]
       (replicate (numElements sim) 0) = Inr regs"
    by (auto simp: finishInit_def Let_def EclThresholdPressure_new_def resize_empty
      split: if_splits sum.splits)
  define st4 where "st4 =
     \<lparr>thpresDefault = replicate (?R * ?R) 0, thpres = replicate (?R * ?R) 0,
      numEquilRegions = ?R, elemEquilRegion = regs, thpresftValues = [],
      cartElemFaultIdx = [], enableThresholdPressure = True\<rparr>"
  from assms le regs obtain st5 where
    st5: "computeDefaultThresholdPressures sim st4 = Inr st5"
    and fin: "applyExplicitThresholdPressures sim st5 = Inr st"
    by (auto simp: finishInit_def Let_def EclThresholdPressure_new_def resize_empty st4_def
      split: if_splits sum.splits)
  from st5 obtain D0 where
    D0: "defaultElements ?R regs (elements sim) (replicate (?R * ?R) 0) = Inr D0"
    and st5_eq: "st5 = st4\<lparr>thpresDefault := reduceDefault (commOthers sim) D0\<rparr>"
    by (auto simp: computeDefaultThresholdPressures_def scanDefault_def st4_def
      split: sum.splits)
  define mk where "mk = (\<lambda>T.
     \<lparr>thpresDefault = reduceDefault (commOthers sim) D0, thpres = T,
      numEquilRegions = ?R, elemEquilRegion = regs, thpresftValues = [],
      cartElemFaultIdx = [], enableThresholdPressure = True\<rparr>)"
  have mk_eq: "\<And>T. st5\<lparr>thpres := T\<rparr> = mk T" by (simp add: mk_def st5_eq st4_def)
  from fin obtain T where
    T: "explicitElements sim ?R regs (reduceDefault (commOthers sim) D0) (elements sim)
          (replicate (?R * ?R) 0) = Inr T"
    and rest: "(if enableExperiments sim then
            (case THPRESFT sim of
               None \<Rightarrow> Inr (mk T)
             | Some kw \<Rightarrow> extractThpresft sim kw (mk T))
          else Inr (mk T)) = Inr st"
    unfolding applyExplicitThresholdPressures_def Let_def mk_eq
    by (auto simp: st5_eq st4_def split: sum.splits)
  have common: "thpres st = T \<and> thpresDefault st = reduceDefault (commOthers sim) D0 \<and>
    elemEquilRegion st = regs \<and> numEquilRegions st = ?R \<and> enableThresholdPressure st"
    using rest
    by (auto simp: extractThpresft_def Let_def mk_def
        split: if_splits option.splits sum.splits prod.splits)
  have flt: "if enableExperiments sim \<and> THPRESFT sim \<noteq> None
     then recordLoop (faults sim) (the (THPRESFT sim))
            (replicate (length (faults sim)) (- 1), replicate (getCartesianSize sim) (- 1)) =
          Inr (thpresftValues st, cartElemFaultIdx st)
     else thpresftValues st = [] \<and> cartElemFaultIdx st = []"
    using rest
    by (auto simp: extractThpresft_def Let_def mk_def resize_empty
        split: if_splits option.splits sum.splits prod.splits)
  show ?thesis
    using that [OF le regs D0 T] common flt by blast
qed

subsection \<open>Restart\<close>

lemma thresholdPressure_no_faults:
  assumes "enableThresholdPressure st" and "thpresftValues st = []"
  shows "thresholdPressure sim st a b = thresholdPressureEquil st a b"
  using assms by (simp add: thresholdPressure_def)

lemma finishInit_restart_after_injection:
  assumes "finishInit sim (EclThresholdPressure_new junk) = Inr st0"
    and "useThresholdPressure sim" and "restart sim"
  shows "finishInit sim (setFromRestart M (EclThresholdPressure_new junk)) =
           Inr (setFromRestart M st0)"
  using assms
  by (auto simp: finishInit_def Let_def setFromRestart_def EclThresholdPressure_new_def
      split: if_splits sum.splits)

text \<open>
  Claim C5. On a restart run \<^verbatim>\<open>finishInit\<close> only stores the regions of the cells; after
  \<^verbatim>\<open>setFromRestart(M)\<close> the matrix of the object is \<open>M\<close> itself, no default matrix has
  been computed, and a query for two cells reads \<open>M\<close> at the offset of their regions
  (zero for equal regions). The elements and faces of the grid, the other processes and
  the declared barriers and values play no part: with any others in their place
  \<^verbatim>\<open>finishInit\<close> returns the same object and every query the same answer. It makes no
  difference whether \<^verbatim>\<open>setFromRestart\<close> is called after \<^verbatim>\<open>finishInit\<close> or before it.
\<close>

theorem restart_bypass:
  assumes "finishInit sim (EclThresholdPressure_new junk) = Inr st0"
    and "useThresholdPressure sim" and "restart sim"
    and "st = setFromRestart M st0"
    and "sim' = sim\<lparr>elements := els, commOthers := oth, hasRegionBarrier := hb,
                     hasThresholdPressure := ht, getThresholdPressure := gt\<rparr>"
  shows "data st = M \<and> thpresDefault st = [] \<and>
     thresholdPressure sim st a b =
       (if a < numElements sim \<and> b < numElements sim then
          if regionOf sim a = regionOf sim b then Inr 0
          else if regionOf sim a * getNumEquilRegions sim + regionOf sim b < length M
               then Inr (M ! (regionOf sim a * getNumEquilRegions sim + regionOf sim b))
               else Inl OutOfBounds
        else Inl OutOfBounds) \<and>
     finishInit sim' (EclThresholdPressure_new junk) = Inr st0 \<and>
     thresholdPressure sim' st a b = thresholdPressure sim st a b \<and>
     finishInit sim (setFromRestart M (EclThresholdPressure_new junk)) = Inr st"
proof -
  from finishInit_restart [OF assms(1-3)] obtain regs where
    regs: "internalizeEqlnum (cartesianIndex sim) (EQLNUM sim) [0..<numElements sim]
                   (replicate (numElements sim) 0) = Inr regs"
    and st0: "st0 = \<lparr>thpresDefault = [], thpres = [], numEquilRegions = getNumEquilRegions sim,
                 elemEquilRegion = regs, thpresftValues = [], cartElemFaultIdx = [],
                 enableThresholdPressure = True\<rparr>"
    by blast
  note r = internalizeEqlnum_regionOf [OF regs]
  have st: "st = \<lparr>thpresDefault = [], thpres = M, numEquilRegions = getNumEquilRegions sim,
                 elemEquilRegion = regs, thpresftValues = [], cartElemFaultIdx = [],
                 enableThresholdPressure = True\<rparr>"
    by (simp add: assms(4) st0 setFromRestart_def)
  have q: "\<And>s. thresholdPressure s st a b = thresholdPressureEquil st a b"
    by (rule thresholdPressure_no_faults) (simp_all add: st)
  have 1: "data st = M \<and> thpresDefault st = []" by (simp add: st data_def)
  have 2: "thresholdPressureEquil st a b =
       (if a < numElements sim \<and> b < numElements sim then
          if regionOf sim a = regionOf sim b then Inr 0
          else if regionOf sim a * getNumEquilRegions sim + regionOf sim b < length M
               then Inr (M ! (regionOf sim a * getNumEquilRegions sim + regionOf sim b))
               else Inl OutOfBounds
        else Inl OutOfBounds)"
    using r by (simp add: thresholdPressureEquil_def st Let_def)
  have 3: "finishInit sim' (EclThresholdPressure_new junk) = Inr st0"
    using assms(1,2,3)
    by (auto simp: finishInit_def assms(5) Let_def split: if_splits sum.splits)
  have 4: "finishInit sim (setFromRestart M (EclThresholdPressure_new junk)) = Inr st"
    using finishInit_restart_after_injection [OF assms(1-3)] assms(4) by simp
  show ?thesis using 1 2 3 4 q by simp
qed

lemma exampleSim_regions:
  "internalizeEqlnum int [1, 2] [0..<2] (replicate 2 0) = Inr [0, 1]"
  by (simp add: upt_rec numeral_2_eq_2 Let_def)

lemma exampleSim_restart:
  "finishInit (exampleSim\<lparr>restart := True\<rparr>) (EclThresholdPressure_new 0) =
     Inr \<lparr>thpresDefault = [], thpres = [], numEquilRegions = 2,
          elemEquilRegion = [0, 1], thpresftValues = [], cartElemFaultIdx = [],
          enableThresholdPressure = True\<rparr>"
  by (simp add: finishInit_def exampleSim_def EclThresholdPressure_new_def resize_def Let_def
      exampleSim_regions)

theorem restart_bypass_witness:
  "data (setFromRestart [0, 5, 6, 0]
           \<lparr>thpresDefault = [], thpres = [], numEquilRegions = 2,
            elemEquilRegion = [0, 1], thpresftValues = [], cartElemFaultIdx = [],
            enableThresholdPressure = True\<rparr>) = [0, 5, 6, 0] \<and>
   thresholdPressure (exampleSim\<lparr>restart := True\<rparr>)
     (setFromRestart [0, 5, 6, 0]
        \<lparr>thpresDefault = [], thpres = [], numEquilRegions = 2,
         elemEquilRegion = [0, 1], thpresftValues = [], cartElemFaultIdx = [],
         enableThresholdPressure = True\<rparr>) 1 0 = Inr 6 \<and>
   finishInit (exampleSim\<lparr>restart := True, elements := [], commOthers := [[9, 9, 9, 9]],
                hasRegionBarrier := (\<lambda>r1 r2. False), hasThresholdPressure := (\<lambda>r1 r2. True),
                getThresholdPressure := (\<lambda>r1 r2. 42)\<rparr>) (EclThresholdPressure_new 0) =
     Inr \<lparr>thpresDefault = [], thpres = [], numEquilRegions = 2,
          elemEquilRegion = [0, 1], thpresftValues = [], cartElemFaultIdx = [],
          enableThresholdPressure = True\<rparr>"
proof -
  have u: "useThresholdPressure (exampleSim\<lparr>restart := True\<rparr>)"
    and r: "restart (exampleSim\<lparr>restart := True\<rparr>)"
    by (simp_all add: exampleSim_def)
  have reg: "regionOf (exampleSim\<lparr>restart := True\<rparr>) 1 = 1"
    "regionOf (exampleSim\<lparr>restart := True\<rparr>) 0 = 0"
    "regionOf (exampleSim\<lparr>restart := True\<rparr>) (Suc 0) = Suc 0"
    by (simp_all add: regionOf_def exampleSim_def)
  have n: "numElements (exampleSim\<lparr>restart := True\<rparr>) = 2"
    "getNumEquilRegions (exampleSim\<lparr>restart := True\<rparr>) = 2"
    by (simp_all add: exampleSim_def)
  show ?thesis
    using restart_bypass [where M = "[0, 5, 6, 0]" and els = "[]" and oth = "[[9, 9, 9, 9]]"
        and hb = "\<lambda>r1 r2. False" and ht = "\<lambda>r1 r2. True" and gt = "\<lambda>r1 r2. 42"
        and a = 1 and b = 0, OF exampleSim_restart u r refl refl]
    by (simp add: reg n)
qed

subsection \<open>The small reservoir, evaluated\<close>

lemma replicate4: "replicate 4 (0::real) = [0, 0, 0, 0]"
  by (simp add: numeral_eq_Suc)

lemma upt4: "[0..<4] = [0, 1, 2, 3]"
  by (simp add: upt_rec)

lemma exampleSim_scan:
  "defaultElements 2 [0, 1] exampleElements [0, 0, 0, 0] = Inr [0, 250000, 250000, 0]"
  by (simp add: exampleElements_def exampleFace_def defaultFace_def Let_def example_flow)

lemma exampleSim_explicit:
  "explicitElements exampleSim 2 [0, 1] [0, 250000, 250000, 0] exampleElements [0, 0, 0, 0] =
     Inr [0, 250000, 250000, 0]"
  by (simp add: exampleElements_def exampleSim_def explicitIntersection_def Let_def)

lemma exampleSim_fields:
  "numElements exampleSim = 2" "numGridDof exampleSim = 2" "cartesianIndex exampleSim = int"
  "useThresholdPressure exampleSim" "getNumEquilRegions exampleSim = 2"
  "EQLNUM exampleSim = [1, 2]" "\<not> restart exampleSim"
  "hasRegionBarrier exampleSim = (\<lambda>r1 r2. r1 \<noteq> r2)"
  "hasThresholdPressure exampleSim = (\<lambda>r1 r2. False)"
  "getThresholdPressure exampleSim = (\<lambda>r1 r2. 0)"
  "elements exampleSim = exampleElements" "commOthers exampleSim = []"
  "\<not> enableExperiments exampleSim" "THPRESFT exampleSim = None" "faults exampleSim = []"
  "getCartesianSize exampleSim = 2"
  by (simp_all add: exampleSim_def)

lemma exampleSim_finishInit:
  "finishInit exampleSim (EclThresholdPressure_new 0) =
     Inr \<lparr>thpresDefault = [0, 250000, 250000, 0], thpres = [0, 250000, 250000, 0],
          numEquilRegions = 2, elemEquilRegion = [0, 1], thpresftValues = [],
          cartElemFaultIdx = [], enableThresholdPressure = True\<rparr>"
proof -
  have r: "reduceDefault [] [0, 250000, 250000, 0] = [0, 250000, 250000, 0]"
    by (simp add: reduceDefault_def commMax_def upt4)
  show ?thesis
    by (simp add: finishInit_def EclThresholdPressure_new_def resize_def Let_def
        exampleSim_regions computeDefaultThresholdPressures_def scanDefault_def
        applyExplicitThresholdPressures_def replicate4 exampleSim_fields r
        exampleSim_scan exampleSim_explicit del: One_nat_def)
qed

subsection \<open>Explicit threshold pressures\<close>

lemma joins_commute: "joins regs i j r1 r2 = joins regs i j r2 r1"
  by (auto simp: joins_def)

lemma explicitIntersections_member_bounds:
  assumes "explicitIntersections sim R regs D is T = Inr T'"
    and "isect \<in> set is" and "barrierAt sim regs isect"
  shows "isInside isect < length regs \<and> isOutside isect < length regs"
  using assms
proof (induction "is" arbitrary: T)
  case Nil
  then show ?case by simp
next
  case (Cons x xs)
  from Cons.prems(1) obtain T1 where
    step: "explicitIntersection sim R regs D x T = Inr T1" and
    tail: "explicitIntersections sim R regs D xs T1 = Inr T'"
    by (auto split: sum.splits)
  show ?case
  proof (cases "isect = x")
    case True
    then show ?thesis
      using explicitIntersection_write [OF step _ refl refl] Cons.prems(3) by simp
  next
    case False
    then show ?thesis using Cons.IH [OF tail] Cons.prems(2,3) by simp
  qed
qed

lemma applyExplicit_thpres:
  assumes "applyExplicitThresholdPressures sim st = Inr st'"
  shows "explicitIntersections sim (numEquilRegions st) (elemEquilRegion st) (thpresDefault st)
           (visitedIntersections (elements sim)) (thpres st) = Inr (thpres st') \<and>
         thpresDefault st' = thpresDefault st"
  using assms
  by (auto simp: applyExplicitThresholdPressures_def explicitElements_flat Let_def
      extractThpresft_def split: sum.splits if_splits option.splits prod.splits)

text \<open>
  Claim C1. Take any intersection that \<^verbatim>\<open>applyExplicitThresholdPressures_\<close> visits (an
  intersection of an interior element that is not on the boundary), between cells of
  regions \<open>rI\<close> and \<open>rO\<close> for which a barrier is declared. When the function returns, both
  entries \<open>(rI, rO)\<close> and \<open>(rO, rI)\<close> of the final matrix hold the explicitly configured
  value if there is one, whatever the default matrix holds, and the entry of the default
  matrix otherwise. The configuration is read through the parsed deck, which answers for
  a pair of regions regardless of their order, and the default matrix is symmetric; both
  are assumed for the pair at hand.
\<close>

theorem applyExplicit_override:
  assumes "applyExplicitThresholdPressures sim st = Inr st'"
    and "\<forall>r\<in>set (elemEquilRegion st). r < numEquilRegions st"
    and "elem \<in> set (elements sim)" and "interiorEntity elem"
    and "isect \<in> set (intersections elem)" and "\<not> isBoundary isect"
    and "rI = elemEquilRegion st ! isInside isect"
    and "rO = elemEquilRegion st ! isOutside isect"
    and "R = numEquilRegions st"
    and "hasRegionBarrier sim (rI + 1) (rO + 1)"
    and "hasThresholdPressure sim (rO + 1) (rI + 1) = hasThresholdPressure sim (rI + 1) (rO + 1)"
    and "getThresholdPressure sim (rO + 1) (rI + 1) = getThresholdPressure sim (rI + 1) (rO + 1)"
    and "thpresDefault st ! (rO * R + rI) = thpresDefault st ! (rI * R + rO)"
    and "pth = (if hasThresholdPressure sim (rI + 1) (rO + 1)
                then getThresholdPressure sim (rI + 1) (rO + 1)
                else thpresDefault st ! (rI * R + rO))"
  shows "thpres st' ! (rI * R + rO) = pth \<and> thpres st' ! (rO * R + rI) = pth"
proof -
  let ?regs = "elemEquilRegion st" and ?D = "thpresDefault st"
  let ?is = "visitedIntersections (elements sim)"
  have loop: "explicitIntersections sim R ?regs ?D ?is (thpres st) = Inr (thpres st')"
    using applyExplicit_thpres [OF assms(1)] assms(9) by simp
  have mem: "isect \<in> set ?is"
    using assms(3,4,5) by (auto simp: visitedIntersections_def)
  have b: "barrierAt sim ?regs isect"
    using assms(6,7,8,10) by (simp add: barrierAt_def)
  note bounds = explicitIntersections_member_bounds [OF loop mem b]
  have regsR: "\<forall>r\<in>set ?regs. r < R" using assms(2,9) by simp
  have "rI \<in> set ?regs" "rO \<in> set ?regs" using bounds assms(7,8) by simp_all
  then have lt: "rI < R" "rO < R" using regsR by simp_all
  have j: "joins ?regs (isInside isect) (isOutside isect) rI rO"
    using bounds assms(7,8) by (simp add: joins_def)
  then have j': "joins ?regs (isInside isect) (isOutside isect) rO rI"
    by (simp add: joins_commute)
  have v1: "explicitValue sim R ?D rI rO = pth"
    using assms(14) by (simp add: explicitValue_def)
  have v2: "explicitValue sim R ?D rO rI = pth"
    using assms(11,12,13,14) by (simp add: explicitValue_def)
  have ex1: "(\<exists>x\<in>set ?is. barrierAt sim ?regs x \<and> joins ?regs (isInside x) (isOutside x) rI rO)
      \<or> thpres st ! (rI * R + rO) = explicitValue sim R ?D rI rO"
    using mem b j by blast
  have ex2: "(\<exists>x\<in>set ?is. barrierAt sim ?regs x \<and> joins ?regs (isInside x) (isOutside x) rO rI)
      \<or> thpres st ! (rO * R + rI) = explicitValue sim R ?D rO rI"
    using mem b j' by blast
  have "thpres st' ! (rI * R + rO) = explicitValue sim R ?D rI rO"
    by (rule explicitIntersections_touched [OF loop regsR lt _ ex1]) (simp add: v1 v2)
  moreover have "thpres st' ! (rO * R + rI) = explicitValue sim R ?D rO rI"
    by (rule explicitIntersections_touched [OF loop regsR lt(2,1) _ ex2]) (simp add: v1 v2)
  ultimately show ?thesis using v1 v2 by simp
qed

lemma exampleSim_override:
  "applyExplicitThresholdPressures
     (exampleSim\<lparr>hasThresholdPressure := (\<lambda>r1 r2. True), getThresholdPressure := (\<lambda>r1 r2. 42)\<rparr>)
     \<lparr>thpresDefault = [0, 250000, 250000, 0], thpres = [0, 0, 0, 0],
      numEquilRegions = 2, elemEquilRegion = [0, 1], thpresftValues = [],
      cartElemFaultIdx = [], enableThresholdPressure = True\<rparr> =
   Inr \<lparr>thpresDefault = [0, 250000, 250000, 0], thpres = [0, 42, 42, 0],
      numEquilRegions = 2, elemEquilRegion = [0, 1], thpresftValues = [],
      cartElemFaultIdx = [], enableThresholdPressure = True\<rparr>"
  by (simp add: applyExplicitThresholdPressures_def exampleSim_def exampleElements_def
      explicitIntersection_def Let_def)

theorem applyExplicit_override_witness:
  "thpres \<lparr>thpresDefault = [0, 250000, 250000, 0], thpres = [0, 42, 42, 0],
      numEquilRegions = 2, elemEquilRegion = [0, 1], thpresftValues = [],
      cartElemFaultIdx = [], enableThresholdPressure = True\<rparr> ! (0 * 2 + 1) = (42 :: real) \<and>
   thpres \<lparr>thpresDefault = [0, 250000, 250000, 0], thpres = [0, 42, 42, 0],
      numEquilRegions = 2, elemEquilRegion = [0, 1], thpresftValues = [],
      cartElemFaultIdx = [], enableThresholdPressure = True\<rparr> ! (1 * 2 + 0) = (42 :: real)"
proof -
  let ?sim = "exampleSim\<lparr>hasThresholdPressure := (\<lambda>r1 r2. True),
                         getThresholdPressure := (\<lambda>r1 r2. 42)\<rparr>"
  let ?st = "\<lparr>thpresDefault = [0, 250000, 250000, 0], thpres = [0, 0, 0, 0],
      numEquilRegions = 2, elemEquilRegion = [0, 1], thpresftValues = [],
      cartElemFaultIdx = [], enableThresholdPressure = True\<rparr>"
  let ?elem = "hd exampleElements"
  let ?isect = "\<lparr>isBoundary = False, isInside = 0, isOutside = 1\<rparr>"
  have regs: "\<forall>r\<in>set (elemEquilRegion ?st). r < numEquilRegions ?st" by simp
  have elem: "?elem \<in> set (elements ?sim)" "interiorEntity ?elem"
    "?isect \<in> set (intersections ?elem)" "\<not> isBoundary ?isect"
    by (simp_all add: exampleSim_def exampleElements_def)
  have rI: "0 = elemEquilRegion ?st ! isInside ?isect"
    and rO: "1 = elemEquilRegion ?st ! isOutside ?isect"
    and R: "2 = numEquilRegions ?st"
    by simp_all
  have cfg: "hasRegionBarrier ?sim (0 + 1) (1 + 1)"
    "hasThresholdPressure ?sim (1 + 1) (0 + 1) = hasThresholdPressure ?sim (0 + 1) (1 + 1)"
    "getThresholdPressure ?sim (1 + 1) (0 + 1) = getThresholdPressure ?sim (0 + 1) (1 + 1)"
    by (simp_all add: exampleSim_def)
  have D: "thpresDefault ?st ! (1 * 2 + 0) = thpresDefault ?st ! (0 * 2 + 1)" by simp
  have pth: "42 = (if hasThresholdPressure ?sim (0 + 1) (1 + 1)
                then getThresholdPressure ?sim (0 + 1) (1 + 1)
                else thpresDefault ?st ! (0 * 2 + 1))"
    by (simp add: exampleSim_def)
  show ?thesis
    by (rule applyExplicit_override [OF exampleSim_override regs elem rI rO R cfg D pth])
qed

subsection \<open>Region pairs that no face joins\<close>

lemma finishInit_regions:
  assumes "internalizeEqlnum (cartesianIndex sim) (EQLNUM sim) [0..<numElements sim]
       (replicate (numElements sim) 0) = Inr regs"
  shows "regs = regions sim"
  using internalizeEqlnum_regionOf [OF assms]
  by (intro nth_equalityI) (simp_all add: regions_def)

lemma regions_valid:
  assumes "validRegionData sim" and "getNumEquilRegions sim \<le> 255"
  shows "\<forall>r\<in>set (regions sim). r < getNumEquilRegions sim"
  using regionOf_valid [OF assms] by (auto simp: regions_def)

lemma fold_max_zero:
  "\<forall>x\<in>set xs. x = (0 :: real) \<Longrightarrow> fold max xs 0 = 0"
  by (induction xs) simp_all

lemma reduceDefault_nth:
  "i < length D \<Longrightarrow> reduceDefault others D ! i = commMax (map (\<lambda>m. m ! i) others) (D ! i)"
  by (simp add: reduceDefault_def)

lemma reduceDefault_length: "length (reduceDefault others D) = length D"
  by (simp add: reduceDefault_def)

text \<open>
  Claim C10. After \<^verbatim>\<open>finishInit\<close> on a run that is not a restart, the two entries of the
  final matrix for a pair of regions that no visited intersection joins are zero. This
  holds whatever the configuration declares for the pair, in particular with a barrier
  and an explicit value: \<^verbatim>\<open>applyExplicitThresholdPressures_\<close> consults the configuration
  only for the regions of the two cells of an intersection it visits.
\<close>

theorem barrier_without_face:
  assumes "finishInit sim (EclThresholdPressure_new junk) = Inr st"
    and "useThresholdPressure sim" and "\<not> restart sim" and "validRegionData sim"
    and "R = getNumEquilRegions sim" and "r1 < R" and "r2 < R"
    and "\<forall>isect\<in>set (visitedIntersections (elements sim)).
           isBoundary isect \<or> \<not> joins (regions sim) (isInside isect) (isOutside isect) r1 r2"
  shows "thpres st ! (r1 * R + r2) = 0 \<and> thpres st ! (r2 * R + r1) = 0"
proof -
  from finishInit_construct [OF assms(1-3)] obtain regs D0 T where
    le: "getNumEquilRegions sim \<le> 255"
    and regs: "internalizeEqlnum (cartesianIndex sim) (EQLNUM sim) [0..<numElements sim]
       (replicate (numElements sim) 0) = Inr regs"
    and T: "explicitElements sim (getNumEquilRegions sim) regs (reduceDefault (commOthers sim) D0)
       (elements sim) (replicate (getNumEquilRegions sim * getNumEquilRegions sim) 0) = Inr T"
    and st: "thpres st = T"
    by metis
  have regs_eq: "regs = regions sim" by (rule finishInit_regions [OF regs])
  have regsR: "\<forall>r\<in>set regs. r < R"
    using regions_valid [OF assms(4) le] regs_eq assms(5) by simp
  let ?is = "visitedIntersections (elements sim)"
  have loop: "explicitIntersections sim R regs (reduceDefault (commOthers sim) D0) ?is
      (replicate (R * R) 0) = Inr T"
    using T by (simp add: explicitElements_flat assms(5))
  have no1: "\<forall>isect\<in>set ?is.
      \<not> (barrierAt sim regs isect \<and> joins regs (isInside isect) (isOutside isect) r1 r2)"
    using assms(8) regs_eq by (auto simp: barrierAt_def)
  then have no2: "\<forall>isect\<in>set ?is.
      \<not> (barrierAt sim regs isect \<and> joins regs (isInside isect) (isOutside isect) r2 r1)"
    by (simp add: joins_commute)
  have "T ! (r1 * R + r2) = replicate (R * R) 0 ! (r1 * R + r2)"
    by (rule explicitIntersections_untouched [OF loop regsR assms(6,7) no1])
  moreover have "T ! (r2 * R + r1) = replicate (R * R) 0 ! (r2 * R + r1)"
    by (rule explicitIntersections_untouched [OF loop regsR assms(7,6) no2])
  ultimately show ?thesis
    using st offset_less [OF assms(6,7)] offset_less [OF assms(7,6)] by simp
qed

text \<open>
  Claim C7. After \<^verbatim>\<open>finishInit\<close> on a run that is not a restart, take a pair of regions
  with no declared barrier and with no stencil face joining them, here or (as far as the
  reduction tells) on any other process. Then the estimator never touched the pair, and
  the two entries of the final matrix are the entries of the default matrix, which are
  zero.
\<close>

theorem untouched_pair_left_at_default:
  assumes "finishInit sim (EclThresholdPressure_new junk) = Inr st"
    and "useThresholdPressure sim" and "\<not> restart sim" and "validRegionData sim"
    and "R = getNumEquilRegions sim" and "r1 < R" and "r2 < R"
    and "\<not> hasRegionBarrier sim (r1 + 1) (r2 + 1)"
    and "\<not> hasRegionBarrier sim (r2 + 1) (r1 + 1)"
    and "\<forall>face\<in>set (visitedFaces (elements sim)). \<not> faceJoins (regions sim) face r1 r2"
    and "\<forall>m\<in>set (commOthers sim). m ! (r1 * R + r2) = 0 \<and> m ! (r2 * R + r1) = 0"
  shows "thpres st ! (r1 * R + r2) = thpresDefault st ! (r1 * R + r2) \<and>
         thpres st ! (r2 * R + r1) = thpresDefault st ! (r2 * R + r1) \<and>
         thpresDefault st ! (r1 * R + r2) = 0 \<and> thpresDefault st ! (r2 * R + r1) = 0"
proof -
  from finishInit_construct [OF assms(1-3)] obtain regs D0 T where
    le: "getNumEquilRegions sim \<le> 255"
    and regs: "internalizeEqlnum (cartesianIndex sim) (EQLNUM sim) [0..<numElements sim]
       (replicate (numElements sim) 0) = Inr regs"
    and D0: "defaultElements (getNumEquilRegions sim) regs (elements sim)
       (replicate (getNumEquilRegions sim * getNumEquilRegions sim) 0) = Inr D0"
    and T: "explicitElements sim (getNumEquilRegions sim) regs (reduceDefault (commOthers sim) D0)
       (elements sim) (replicate (getNumEquilRegions sim * getNumEquilRegions sim) 0) = Inr T"
    and st: "thpres st = T" "thpresDefault st = reduceDefault (commOthers sim) D0"
    by metis
  have regs_eq: "regs = regions sim" by (rule finishInit_regions [OF regs])
  have regsR: "\<forall>r\<in>set regs. r < R"
    using regions_valid [OF assms(4) le] regs_eq assms(5) by simp
  let ?is = "visitedIntersections (elements sim)"
  let ?fs = "visitedFaces (elements sim)"
  have o: "r1 * R + r2 < R * R" "r2 * R + r1 < R * R"
    using offset_less assms(6,7) by simp_all
  \<comment> \<open>the final matrix\<close>
  have loop: "explicitIntersections sim R regs (reduceDefault (commOthers sim) D0) ?is
      (replicate (R * R) 0) = Inr T"
    using T by (simp add: explicitElements_flat assms(5))
  have no1: "\<forall>isect\<in>set ?is.
      \<not> (barrierAt sim regs isect \<and> joins regs (isInside isect) (isOutside isect) r1 r2)"
    using assms(8,9) by (auto simp: barrierAt_def joins_def)
  then have no2: "\<forall>isect\<in>set ?is.
      \<not> (barrierAt sim regs isect \<and> joins regs (isInside isect) (isOutside isect) r2 r1)"
    by (simp add: joins_commute)
  have "T ! (r1 * R + r2) = replicate (R * R) 0 ! (r1 * R + r2)"
    by (rule explicitIntersections_untouched [OF loop regsR assms(6,7) no1])
  moreover have "T ! (r2 * R + r1) = replicate (R * R) 0 ! (r2 * R + r1)"
    by (rule explicitIntersections_untouched [OF loop regsR assms(7,6) no2])
  ultimately have final: "thpres st ! (r1 * R + r2) = 0" "thpres st ! (r2 * R + r1) = 0"
    using st o by simp_all
  \<comment> \<open>the default matrix\<close>
  have scan: "defaultFaces R regs ?fs (replicate (R * R) 0) = Inr D0"
    using D0 by (simp add: defaultElements_flat assms(5))
  have len: "length D0 = R * R" using defaultFaces_length [OF scan] by simp
  have nf1: "\<forall>face\<in>set ?fs. \<not> faceJoins regs face r1 r2"
    using assms(10) regs_eq by simp
  then have nf2: "\<forall>face\<in>set ?fs. \<not> faceJoins regs face r2 r1"
    by (simp add: faceJoins_def joins_commute)
  have "D0 ! (r1 * R + r2) = replicate (R * R) 0 ! (r1 * R + r2)"
    by (rule defaultFaces_untouched [OF scan regsR assms(6,7) nf1])
  moreover have "D0 ! (r2 * R + r1) = replicate (R * R) 0 ! (r2 * R + r1)"
    by (rule defaultFaces_untouched [OF scan regsR assms(7,6) nf2])
  ultimately have local: "D0 ! (r1 * R + r2) = 0" "D0 ! (r2 * R + r1) = 0"
    using o by simp_all
  have "reduceDefault (commOthers sim) D0 ! (r1 * R + r2) = 0"
    using o len local assms(11) by (simp add: reduceDefault_nth commMax_def fold_max_zero)
  moreover have "reduceDefault (commOthers sim) D0 ! (r2 * R + r1) = 0"
    using o len local assms(11) by (simp add: reduceDefault_nth commMax_def fold_max_zero)
  ultimately show ?thesis using final st by simp
qed

subsection \<open>The row of three cells, evaluated\<close>

lemma replicate9: "replicate 9 (0::real) = [0, 0, 0, 0, 0, 0, 0, 0, 0]"
  by (simp add: numeral_eq_Suc)

lemma upt9: "[0..<9] = [0, 1, 2, 3, 4, 5, 6, 7, 8]"
  by (simp add: upt_rec)

lemma chain_regions:
  "internalizeEqlnum int [1, 2, 3] [0..<3] (replicate 3 0) = Inr [0, 1, 2]"
  by (simp add: upt_rec numeral_3_eq_3 Let_def)

lemma chain_scan:
  "defaultElements 3 [0, 1, 2] chainElements [0, 0, 0, 0, 0, 0, 0, 0, 0] =
     Inr [0, 250000, 0, 250000, 0, 250000, 0, 250000, 0]"
  by (simp add: chainElements_def exampleFace_def defaultFace_def Let_def example_flow)

lemma chain_reduce:
  "reduceDefault [] [0, 250000, 0, 250000, 0, 250000, 0, 250000, 0] =
     [0, 250000, 0, 250000, 0, 250000, 0, 250000, 0]"
  by (simp add: reduceDefault_def commMax_def upt9)

lemma chainSim_fields:
  "numElements chainSim = 3" "numGridDof chainSim = 3" "cartesianIndex chainSim = int"
  "useThresholdPressure chainSim" "getNumEquilRegions chainSim = 3"
  "EQLNUM chainSim = [1, 2, 3]" "\<not> restart chainSim"
  "hasRegionBarrier chainSim = (\<lambda>r1 r2. r1 \<noteq> r2)"
  "hasThresholdPressure chainSim = (\<lambda>r1 r2. True)"
  "getThresholdPressure chainSim = (\<lambda>r1 r2. 42)"
  "elements chainSim = chainElements" "commOthers chainSim = []"
  "\<not> enableExperiments chainSim" "THPRESFT chainSim = None" "faults chainSim = []"
  "getCartesianSize chainSim = 3"
  by (simp_all add: chainSim_def)

lemma chainSimDefaults_fields:
  "numElements chainSimDefaults = 3" "numGridDof chainSimDefaults = 3"
  "cartesianIndex chainSimDefaults = int"
  "useThresholdPressure chainSimDefaults" "getNumEquilRegions chainSimDefaults = 3"
  "EQLNUM chainSimDefaults = [1, 2, 3]" "\<not> restart chainSimDefaults"
  "hasRegionBarrier chainSimDefaults = (\<lambda>r1 r2. r1 \<noteq> r2 \<and> (r1 = 2 \<or> r2 = 2))"
  "hasThresholdPressure chainSimDefaults = (\<lambda>r1 r2. False)"
  "elements chainSimDefaults = chainElements" "commOthers chainSimDefaults = []"
  "\<not> enableExperiments chainSimDefaults" "THPRESFT chainSimDefaults = None"
  "faults chainSimDefaults = []" "getCartesianSize chainSimDefaults = 3"
  by (simp_all add: chainSimDefaults_def chainSim_def)

lemma chainSim_explicit:
  "explicitElements chainSim 3 [0, 1, 2] [0, 250000, 0, 250000, 0, 250000, 0, 250000, 0]
     chainElements [0, 0, 0, 0, 0, 0, 0, 0, 0] = Inr [0, 42, 0, 42, 0, 42, 0, 42, 0]"
  by (simp add: chainElements_def chainSim_fields explicitIntersection_def Let_def)

lemma chainSimDefaults_explicit:
  "explicitElements chainSimDefaults 3 [0, 1, 2]
       [0, 250000, 0, 250000, 0, 250000, 0, 250000, 0]
     chainElements [0, 0, 0, 0, 0, 0, 0, 0, 0] =
     Inr [0, 250000, 0, 250000, 0, 250000, 0, 250000, 0]"
  by (simp add: chainElements_def chainSimDefaults_fields explicitIntersection_def Let_def)

lemma chainSim_finishInit:
  "finishInit chainSim (EclThresholdPressure_new 0) =
     Inr \<lparr>thpresDefault = [0, 250000, 0, 250000, 0, 250000, 0, 250000, 0],
          thpres = [0, 42, 0, 42, 0, 42, 0, 42, 0],
          numEquilRegions = 3, elemEquilRegion = [0, 1, 2], thpresftValues = [],
          cartElemFaultIdx = [], enableThresholdPressure = True\<rparr>"
  by (simp add: finishInit_def EclThresholdPressure_new_def resize_def Let_def
        chain_regions computeDefaultThresholdPressures_def scanDefault_def
        applyExplicitThresholdPressures_def replicate9 chainSim_fields chain_reduce
        chain_scan chainSim_explicit del: One_nat_def)

lemma chainSimDefaults_finishInit:
  "finishInit chainSimDefaults (EclThresholdPressure_new 0) =
     Inr \<lparr>thpresDefault = [0, 250000, 0, 250000, 0, 250000, 0, 250000, 0],
          thpres = [0, 250000, 0, 250000, 0, 250000, 0, 250000, 0],
          numEquilRegions = 3, elemEquilRegion = [0, 1, 2], thpresftValues = [],
          cartElemFaultIdx = [], enableThresholdPressure = True\<rparr>"
  by (simp add: finishInit_def EclThresholdPressure_new_def resize_def Let_def
        chain_regions computeDefaultThresholdPressures_def scanDefault_def
        applyExplicitThresholdPressures_def replicate9 chainSimDefaults_fields chain_reduce
        chain_scan chainSimDefaults_explicit del: One_nat_def)

lemma less3: "(e < (3::nat)) = (e = 0 \<or> e = 1 \<or> e = 2)"
  by auto

lemma chainSim_valid: "validRegionData chainSim"
  by (auto simp: validRegionData_def chainSim_fields less3)

lemma chainSimDefaults_valid: "validRegionData chainSimDefaults"
  by (auto simp: validRegionData_def chainSimDefaults_fields less3)

lemma chain_regions_list:
  "regions chainSim = [0, 1, 2]" "regions chainSimDefaults = [0, 1, 2]"
  by (simp_all add: regions_def regionOf_def chainSim_fields chainSimDefaults_fields
      upt_rec numeral_3_eq_3)

lemma chain_visited:
  "visitedIntersections chainElements =
     [\<lparr>isBoundary = False, isInside = 0, isOutside = 1\<rparr>,
      \<lparr>isBoundary = False, isInside = 1, isOutside = 0\<rparr>,
      \<lparr>isBoundary = False, isInside = 1, isOutside = 2\<rparr>,
      \<lparr>isBoundary = False, isInside = 2, isOutside = 1\<rparr>]"
  "visitedFaces chainElements =
     [exampleFace 0 1, exampleFace 1 0, exampleFace 1 2, exampleFace 2 1]"
  by (simp_all add: visitedIntersections_def visitedFaces_def chainElements_def)

theorem barrier_without_face_witness:
  "hasRegionBarrier chainSim 1 3 \<and> hasThresholdPressure chainSim 1 3 \<and>
   getThresholdPressure chainSim 1 3 = 42 \<and>
   thpres \<lparr>thpresDefault = [0, 250000, 0, 250000, 0, 250000, 0, 250000, 0],
           thpres = [0, 42, 0, 42, 0, 42, 0, 42, 0],
           numEquilRegions = 3, elemEquilRegion = [0, 1, 2], thpresftValues = [],
           cartElemFaultIdx = [], enableThresholdPressure = True\<rparr> ! (0 * 3 + 2) = 0 \<and>
   thpres \<lparr>thpresDefault = [0, 250000, 0, 250000, 0, 250000, 0, 250000, 0],
           thpres = [0, 42, 0, 42, 0, 42, 0, 42, 0],
           numEquilRegions = 3, elemEquilRegion = [0, 1, 2], thpresftValues = [],
           cartElemFaultIdx = [], enableThresholdPressure = True\<rparr> ! (2 * 3 + 0) = 0"
proof -
  have no: "\<forall>isect\<in>set (visitedIntersections (elements chainSim)).
      isBoundary isect \<or> \<not> joins (regions chainSim) (isInside isect) (isOutside isect) 0 2"
    by (simp add: chainSim_fields chain_visited chain_regions_list joins_def)
  have r: "(0::nat) < 3" "(2::nat) < 3" by simp_all
  show ?thesis
    using barrier_without_face [OF chainSim_finishInit chainSim_fields(4,7) chainSim_valid
        chainSim_fields(5) [symmetric] r no]
    by (simp add: chainSim_fields)
qed

theorem untouched_pair_left_at_default_witness:
  "thpres \<lparr>thpresDefault = [0, 250000, 0, 250000, 0, 250000, 0, 250000, 0],
           thpres = [0, 250000, 0, 250000, 0, 250000, 0, 250000, 0],
           numEquilRegions = 3, elemEquilRegion = [0, 1, 2], thpresftValues = [],
           cartElemFaultIdx = [], enableThresholdPressure = True\<rparr> ! (0 * 3 + 2) = 0 \<and>
   thpresDefault \<lparr>thpresDefault = [0, 250000, 0, 250000, 0, 250000, 0, 250000, 0],
           thpres = [0, 250000, 0, 250000, 0, 250000, 0, 250000, 0],
           numEquilRegions = 3, elemEquilRegion = [0, 1, 2], thpresftValues = [],
           cartElemFaultIdx = [], enableThresholdPressure = True\<rparr> ! (2 * 3 + 0) = 0"
proof -
  have no: "\<forall>face\<in>set (visitedFaces (elements chainSimDefaults)).
      \<not> faceJoins (regions chainSimDefaults) face 0 2"
    by (simp add: chainSimDefaults_fields chain_visited chain_regions_list faceJoins_def
        joins_def exampleFace_def)
  have others: "\<forall>m\<in>set (commOthers chainSimDefaults). m ! (0 * 3 + 2) = 0 \<and> m ! (2 * 3 + 0) = 0"
    by (simp add: chainSimDefaults_fields)
  have nb: "\<not> hasRegionBarrier chainSimDefaults (0 + 1) (2 + 1)"
    "\<not> hasRegionBarrier chainSimDefaults (2 + 1) (0 + 1)"
    by (simp_all add: chainSimDefaults_fields)
  have r: "(0::nat) < 3" "(2::nat) < 3" by simp_all
  show ?thesis
    using untouched_pair_left_at_default [OF chainSimDefaults_finishInit
        chainSimDefaults_fields(4,7) chainSimDefaults_valid
        chainSimDefaults_fields(5) [symmetric] r nb no others]
    by simp
qed

subsection \<open>The reduction over the processes\<close>

lemma commMax_Max: "commMax others x = Max (set (x # others))"
  unfolding commMax_def Max.set_eq_fold ..

lemma set_othersOf:
  assumes "p < length xs"
  shows "set (xs ! p # othersOf xs p) = set xs"
proof -
  have "xs = take p xs @ xs ! p # drop (Suc p) xs"
    using assms by (rule id_take_nth_drop)
  then have "set xs = set (take p xs @ xs ! p # drop (Suc p) xs)" by simp
  then show ?thesis by (simp add: othersOf_def)
qed

lemma reduceDefault_all:
  assumes "p < length locals"
  shows "reduceDefault (othersOf locals p) (locals ! p) =
           map (\<lambda>i. Max ((\<lambda>m. m ! i) ` set locals)) [0..<length (locals ! p)]"
proof -
  have "\<And>i. set (locals ! p ! i # map (\<lambda>m. m ! i) (othersOf locals p)) =
             (\<lambda>m. m ! i) ` set locals"
    using set_othersOf [OF assms] by (metis list.simps(9) set_map)
  then show ?thesis by (simp add: reduceDefault_def commMax_Max del: set_simps)
qed

text \<open>
  Claim C6. Let the processes of a run, listed by rank, each have scanned its faces, with
  \<open>locals ! q\<close> the matrix process \<open>q\<close> accumulated, all of the same size \<open>n\<close>. Then
  \<^verbatim>\<open>computeDefaultThresholdPressures_\<close> on process \<open>p\<close>, which receives the matrices of
  the others through the collective maximum, leaves in \<^verbatim>\<open>thpresDefault_\<close> at every
  index the maximum over all processes of their local entry. The result does not depend
  on \<open>p\<close>: all processes hold the same default matrix.
\<close>

theorem distributed_consistency:
  assumes "p < length sims" and "length sts = length sims" and "length locals = length sims"
    and "\<forall>q<length sims.
           scanDefault (sims ! q) (sts ! q) = Inr (locals ! q) \<and> length (locals ! q) = n"
    and "commOthers (sims ! p) = othersOf locals p"
  shows "computeDefaultThresholdPressures (sims ! p) (sts ! p) =
           Inr ((sts ! p)\<lparr>thpresDefault :=
                  map (\<lambda>i. Max ((\<lambda>m. m ! i) ` set locals)) [0..<n]\<rparr>)"
proof -
  have scan: "scanDefault (sims ! p) (sts ! p) = Inr (locals ! p)"
    and len: "length (locals ! p) = n"
    using assms(1,4) by simp_all
  have "reduceDefault (commOthers (sims ! p)) (locals ! p) =
          map (\<lambda>i. Max ((\<lambda>m. m ! i) ` set locals)) [0..<n]"
    using reduceDefault_all [of p locals] assms(1,3,5) len by simp
  then show ?thesis
    by (simp add: computeDefaultThresholdPressures_def scan)
qed

lemma partition_scan:
  "scanDefault partitionX partitionState = Inr [0, 5, 5, 0]"
  "scanDefault partitionY partitionState = Inr [0, 3, 3, 0]"
  by (simp_all add: scanDefault_def partitionX_def partitionY_def partitionState_def
      partitionElements_def exampleSim_def exampleFace_def defaultFace_def Let_def example_flow)

theorem distributed_consistency_witness:
  "computeDefaultThresholdPressures partitionX partitionState =
     Inr (partitionState\<lparr>thpresDefault := [0, 5, 5, 0]\<rparr>) \<and>
   computeDefaultThresholdPressures partitionY partitionState =
     Inr (partitionState\<lparr>thpresDefault := [0, 5, 5, 0]\<rparr>)"
proof -
  let ?sims = "[partitionX, partitionY]"
  let ?sts = "[partitionState, partitionState]"
  let ?locals = "[[0, 5, 5, 0], [0, 3, 3, 0 :: real]]"
  have scans: "\<forall>q<length ?sims.
      scanDefault (?sims ! q) (?sts ! q) = Inr (?locals ! q) \<and> length (?locals ! q) = 4"
    by (auto simp: less_Suc_eq partition_scan)
  have o0: "commOthers (?sims ! 0) = othersOf ?locals 0"
    and o1: "commOthers (?sims ! 1) = othersOf ?locals 1"
    by (simp_all add: othersOf_def partitionX_def partitionY_def exampleSim_def)
  show ?thesis
    using distributed_consistency [of 0 ?sims ?sts ?locals 4, OF _ _ _ scans o0]
      distributed_consistency [of 1 ?sims ?sts ?locals 4, OF _ _ _ scans o1]
    by (simp add: upt4)
qed

subsection \<open>The fault tables\<close>

lemma markFaultCells_result:
  assumes "markFaultCells faultIdx cs cfi = Inr cfi'"
  shows "length cfi' = length cfi \<and> set cfi' \<subseteq> insert (int faultIdx) (set cfi)"
  using assms
proof (induction cs arbitrary: cfi)
  case Nil
  then show ?case by auto
next
  case (Cons c cs)
  from Cons.prems have c: "c < length cfi"
    and tail: "markFaultCells faultIdx cs (cfi[c := int faultIdx]) = Inr cfi'"
    by (auto split: if_splits)
  have "set (cfi[c := int faultIdx]) \<subseteq> insert (int faultIdx) (set cfi)"
    by (rule set_update_subset_insert)
  then show ?case using Cons.IH [OF tail] by auto
qed

lemma faultLoop_result:
  assumes "faultLoop name v faultIdx rest (vals, cfi) = Inr (vals', cfi')"
    and "flts = pre @ rest" and "faultIdx = length pre"
  shows "length vals' = length vals \<and> length cfi' = length cfi \<and>
         (\<forall>x\<in>set cfi'. x \<in> set cfi \<or>
             (0 \<le> x \<and> nat x < length flts \<and> faultName (flts ! nat x) = name))"
  using assms
proof (induction rest arbitrary: pre faultIdx vals cfi)
  case Nil
  then show ?case by simp
next
  case (Cons flt rest)
  have split: "flts = (pre @ [flt]) @ rest" "Suc faultIdx = length (pre @ [flt])"
    using Cons.prems(2,3) by simp_all
  show ?case
  proof (cases "faultName flt = name")
    case False
    then have "faultLoop name v (Suc faultIdx) rest (vals, cfi) = Inr (vals', cfi')"
      using Cons.prems(1) by simp
    from Cons.IH [OF this split] show ?thesis .
  next
    case True
    from Cons.prems(1) True obtain cfi1 where
      mark: "markFaultCells faultIdx (concat (faultFaces flt)) cfi = Inr cfi1"
      and tail: "faultLoop name v (Suc faultIdx) rest (vals[faultIdx := v], cfi1) = Inr (vals', cfi')"
      by (auto split: if_splits sum.splits)
    note m = markFaultCells_result [OF mark]
    note ih = Cons.IH [OF tail split]
    have here: "nat (int faultIdx) < length flts \<and> faultName (flts ! nat (int faultIdx)) = name"
      using Cons.prems(2,3) True by simp
    have "\<forall>x\<in>set cfi1. x \<in> set cfi \<or>
             (0 \<le> x \<and> nat x < length flts \<and> faultName (flts ! nat x) = name)"
      using m here by auto
    then show ?thesis using ih m by auto
  qed
qed

lemma faultLoop_tables:
  assumes "faultLoop name v 0 flts s = Inr s'" and "faultTablesOK flts names s"
  shows "faultTablesOK flts (insert name names) s'"
proof -
  obtain vals cfi vals' cfi' where s: "s = (vals, cfi)" "s' = (vals', cfi')"
    by (cases s, cases s') auto
  from faultLoop_result [OF assms(1) [unfolded s], of flts "[]"]
  have r: "length vals' = length vals" "length cfi' = length cfi"
    "\<forall>x\<in>set cfi'. x \<in> set cfi \<or>
             (0 \<le> x \<and> nat x < length flts \<and> faultName (flts ! nat x) = name)"
    by simp_all
  show ?thesis
    using assms(2) r unfolding faultTablesOK_def s by fastforce
qed

lemma recordLoop_tables:
  assumes "recordLoop flts recs s = Inr s'" and "faultTablesOK flts names s"
  shows "faultTablesOK flts (names \<union> fst ` set recs) s' \<and> length (snd s') = length (snd s)"
  using assms
proof (induction flts recs s arbitrary: names rule: recordLoop.induct)
  case (1 flts s)
  then show ?case by simp
next
  case (2 flts name v rest s)
  from "2.prems"(1) obtain s1 where
    step: "faultLoop name v 0 flts s = Inr s1" and
    tail: "recordLoop flts rest s1 = Inr s'"
    by (auto split: sum.splits)
  have ok1: "faultTablesOK flts (insert name names) s1"
    by (rule faultLoop_tables [OF step "2.prems"(2)])
  have len1: "length (snd s1) = length (snd s)"
    using faultLoop_result [of name v 0 flts "fst s" "snd s" "fst s1" "snd s1" flts "[]"] step
    by simp
  from "2.IH" [OF step tail ok1] len1 show ?case by simp
qed

lemma faultTables_init:
  "faultTablesOK flts {} (replicate (length flts) (- 1), replicate n (- 1))"
  by (simp add: faultTablesOK_def)

lemma finishInit_faultTables:
  assumes "finishInit sim (EclThresholdPressure_new junk) = Inr st"
    and "useThresholdPressure sim" and "\<not> restart sim"
    and "enableExperiments sim" and "thpresftValues st \<noteq> []"
  shows "length (thpresftValues st) = length (faults sim) \<and>
         length (cartElemFaultIdx st) = getCartesianSize sim \<and>
         (\<forall>x\<in>set (cartElemFaultIdx st).
            x = - 1 \<or> (0 \<le> x \<and> nat x < length (faults sim) \<and> faultIsSet sim (nat x)))"
proof -
  from finishInit_construct [OF assms(1-3)] have
    f: "if enableExperiments sim \<and> THPRESFT sim \<noteq> None
     then recordLoop (faults sim) (the (THPRESFT sim))
            (replicate (length (faults sim)) (- 1), replicate (getCartesianSize sim) (- 1)) =
          Inr (thpresftValues st, cartElemFaultIdx st)
     else thpresftValues st = [] \<and> cartElemFaultIdx st = []"
    by metis
  with assms(5) obtain kw where kw: "THPRESFT sim = Some kw"
    and loop: "recordLoop (faults sim) kw
            (replicate (length (faults sim)) (- 1), replicate (getCartesianSize sim) (- 1)) =
          Inr (thpresftValues st, cartElemFaultIdx st)"
    by (auto split: if_splits)
  from recordLoop_tables [OF loop faultTables_init]
  show ?thesis by (auto simp: faultTablesOK_def faultIsSet_def kw)
qed

subsection \<open>The query, faults first\<close>

text \<open>
  Claim C3. Let the object come from \<^verbatim>\<open>finishInit\<close> with the experimental fault
  extension enabled and at least one fault value stored, and let \<open>f1\<close> and \<open>f2\<close> be the
  fault indices of the two cells of a query. Each is \<open>-1\<close> (outside any fault) or the
  index of a fault. The query answers 0 when both are the same fault; the maximum of the
  two fault values, with zero for an unset value or a cell outside any fault, when they
  differ; and what the region-based lookup answers when both cells are outside any
  fault.
\<close>

theorem fault_first_resolution:
  assumes "finishInit sim (EclThresholdPressure_new junk) = Inr st"
    and "useThresholdPressure sim" and "\<not> restart sim"
    and "enableExperiments sim" and "thpresftValues st \<noteq> []"
    and "0 \<le> cartesianIndex sim a" and "nat (cartesianIndex sim a) < getCartesianSize sim"
    and "0 \<le> cartesianIndex sim b" and "nat (cartesianIndex sim b) < getCartesianSize sim"
    and "f1 = cartElemFaultIdx st ! nat (cartesianIndex sim a)"
    and "f2 = cartElemFaultIdx st ! nat (cartesianIndex sim b)"
  shows "thresholdPressure sim st a b =
           (if f1 \<noteq> - 1 \<and> f1 = f2 then Inr 0
            else if f1 \<noteq> f2 then Inr (max (faultValue sim st f1) (faultValue sim st f2))
            else thresholdPressureEquil st a b) \<and>
         (f1 = - 1 \<or> 0 \<le> f1 \<and> nat f1 < length (faults sim)) \<and>
         (f2 = - 1 \<or> 0 \<le> f2 \<and> nat f2 < length (faults sim))"
proof -
  from finishInit_construct [OF assms(1-3)] have en: "enableThresholdPressure st" by metis
  from finishInit_faultTables [OF assms(1-5)] have
    lv: "length (thpresftValues st) = length (faults sim)"
    and lc: "length (cartElemFaultIdx st) = getCartesianSize sim"
    and tab: "\<forall>x\<in>set (cartElemFaultIdx st).
            x = - 1 \<or> (0 \<le> x \<and> nat x < length (faults sim) \<and> faultIsSet sim (nat x))"
    by simp_all
  have "f1 \<in> set (cartElemFaultIdx st)" "f2 \<in> set (cartElemFaultIdx st)"
    using assms(7,9,10,11) lc by simp_all
  then have f1: "f1 = - 1 \<or> (0 \<le> f1 \<and> nat f1 < length (faults sim) \<and> faultIsSet sim (nat f1))"
    and f2: "f2 = - 1 \<or> (0 \<le> f2 \<and> nat f2 < length (faults sim) \<and> faultIsSet sim (nat f2))"
    using tab by blast+
  have v1: "(if f1 \<ge> 0 then thpresftValues st ! nat f1 else 0) = faultValue sim st f1"
    using f1 by (auto simp: faultValue_def)
  have v2: "(if f2 \<ge> 0 then thpresftValues st ! nat f2 else 0) = faultValue sim st f2"
    using f2 by (auto simp: faultValue_def)
  have b1: "\<not> (f1 \<ge> 0 \<and> nat f1 \<ge> length (thpresftValues st))" using f1 lv by auto
  have b2: "\<not> (f2 \<ge> 0 \<and> nat f2 \<ge> length (thpresftValues st))" using f2 lv by auto
  have a1: "0 \<le> cartesianIndex sim a \<and>
      int (length (cartElemFaultIdx st)) > cartesianIndex sim a"
    using assms(6,7) lc by simp
  have a2: "0 \<le> cartesianIndex sim b \<and>
      int (length (cartElemFaultIdx st)) > cartesianIndex sim b"
    using assms(8,9) lc by simp
  have "thresholdPressure sim st a b =
           (if f1 \<noteq> - 1 \<and> f1 = f2 then Inr 0
            else if f1 \<noteq> f2 then Inr (max (faultValue sim st f1) (faultValue sim st f2))
            else thresholdPressureEquil st a b)"
  proof (cases "f1 \<noteq> - 1 \<and> f1 = f2")
    case True
    then show ?thesis
      unfolding thresholdPressure_def Let_def assms(10,11) [symmetric]
      by (simp add: en assms(4,5) a1 a2)
  next
    case False
    show ?thesis
    proof (cases "f1 = f2")
      case True
      then show ?thesis
        unfolding thresholdPressure_def Let_def assms(10,11) [symmetric]
        using False by (simp add: en assms(4,5) a1 a2)
    next
      case ne: False
      then show ?thesis
        unfolding thresholdPressure_def Let_def assms(10,11) [symmetric]
        by (simp add: en assms(4,5) a1 a2 b1 b2 v1 [symmetric] v2 [symmetric])
    qed
  qed
  then show ?thesis using f1 f2 by blast
qed

lemma faultSim_fields:
  "numElements faultSim = 2" "numGridDof faultSim = 2" "cartesianIndex faultSim = int"
  "useThresholdPressure faultSim" "getNumEquilRegions faultSim = 2"
  "EQLNUM faultSim = [1, 2]" "\<not> restart faultSim"
  "hasRegionBarrier faultSim = (\<lambda>r1 r2. r1 \<noteq> r2)"
  "hasThresholdPressure faultSim = (\<lambda>r1 r2. False)"
  "getThresholdPressure faultSim = (\<lambda>r1 r2. 0)"
  "elements faultSim = exampleElements" "commOthers faultSim = []"
  "enableExperiments faultSim" "THPRESFT faultSim = Some [(''F1'', 3), (''F2'', 7)]"
  "faults faultSim = [\<lparr>faultName = ''F1'', faultFaces = [[0]]\<rparr>,
                      \<lparr>faultName = ''F2'', faultFaces = [[1]]\<rparr>]"
  "getCartesianSize faultSim = 2"
  by (simp_all add: faultSim_def exampleSim_def)

lemma faultSim_explicit:
  "explicitElements faultSim 2 [0, 1] [0, 250000, 250000, 0] exampleElements [0, 0, 0, 0] =
     Inr [0, 250000, 250000, 0]"
  by (simp add: exampleElements_def faultSim_fields explicitIntersection_def Let_def)

lemma faultSim_extract:
  "recordLoop [\<lparr>faultName = ''F1'', faultFaces = [[0]]\<rparr>,
               \<lparr>faultName = ''F2'', faultFaces = [[1]]\<rparr>]
     [(''F1'', 3), (''F2'', 7)] ([- 1, - 1], [- 1, - 1]) = Inr ([3, 7], [0, 1])"
  by simp

lemma replicate2:
  "replicate 2 (- 1 :: real) = [- 1, - 1]" "replicate 2 (- 1 :: int) = [- 1, - 1]"
  by (simp_all add: numeral_eq_Suc)

lemma faultSim_finishInit:
  "finishInit faultSim (EclThresholdPressure_new 0) =
     Inr \<lparr>thpresDefault = [0, 250000, 250000, 0], thpres = [0, 250000, 250000, 0],
          numEquilRegions = 2, elemEquilRegion = [0, 1], thpresftValues = [3, 7],
          cartElemFaultIdx = [0, 1], enableThresholdPressure = True\<rparr>"
proof -
  have r: "reduceDefault [] [0, 250000, 250000, 0] = [0, 250000, 250000, 0]"
    by (simp add: reduceDefault_def commMax_def upt4)
  show ?thesis
    by (simp add: finishInit_def EclThresholdPressure_new_def resize_def Let_def
        exampleSim_regions computeDefaultThresholdPressures_def scanDefault_def
        applyExplicitThresholdPressures_def extractThpresft_def replicate4 replicate2
        faultSim_fields r exampleSim_scan faultSim_explicit faultSim_extract
        del: One_nat_def recordLoop.simps)
qed

theorem fault_first_resolution_witness:
  "thresholdPressure faultSim
     \<lparr>thpresDefault = [0, 250000, 250000, 0], thpres = [0, 250000, 250000, 0],
      numEquilRegions = 2, elemEquilRegion = [0, 1], thpresftValues = [3, 7],
      cartElemFaultIdx = [0, 1], enableThresholdPressure = True\<rparr> 0 1 = Inr 7 \<and>
   thresholdPressure faultSim
     \<lparr>thpresDefault = [0, 250000, 250000, 0], thpres = [0, 250000, 250000, 0],
      numEquilRegions = 2, elemEquilRegion = [0, 1], thpresftValues = [3, 7],
      cartElemFaultIdx = [0, 1], enableThresholdPressure = True\<rparr> 1 1 = Inr 0"
proof -
  let ?st = "\<lparr>thpresDefault = [0, 250000, 250000, 0], thpres = [0, 250000, 250000, 0],
      numEquilRegions = 2, elemEquilRegion = [0, 1], thpresftValues = [3, 7],
      cartElemFaultIdx = [0, 1], enableThresholdPressure = True\<rparr>"
  have set01: "faultIsSet faultSim 0" "faultIsSet faultSim (Suc 0)"
    by (simp_all add: faultIsSet_def faultSim_fields)
  have v: "faultValue faultSim ?st 0 = 3" "faultValue faultSim ?st 1 = 7"
    by (simp_all add: faultValue_def set01)
  show ?thesis
    using fault_first_resolution [where sim = faultSim and a = 0 and b = 1 and
          ?f1.0 = 0 and ?f2.0 = 1, OF faultSim_finishInit]
      fault_first_resolution [where sim = faultSim and a = 1 and b = 1 and
          ?f1.0 = 1 and ?f2.0 = 1, OF faultSim_finishInit]
    by (simp add: faultSim_fields v del: One_nat_def)
qed

subsection \<open>Initialised objects\<close>

lemma finishInit_disabled:
  assumes "finishInit sim st0 = Inr st" and "\<not> useThresholdPressure sim"
  shows "\<not> enableThresholdPressure st"
  using assms by (auto simp: finishInit_def Let_def split: if_splits)

lemma symmetricMatrix_replicate: "symmetricMatrix R (replicate (R * R) 0)"
  by (simp add: symmetricMatrix_def offset_less)

lemma construction_tableOK:
  assumes fin: "finishInit sim (EclThresholdPressure_new junk) = Inr st"
    and nr: "\<not> restart sim" and valid: "validRegionData sim"
  shows "tableOK sim st"
proof (cases "useThresholdPressure sim")
  case False
  then show ?thesis using finishInit_disabled [OF fin] by (simp add: tableOK_def)
next
  case True
  let ?R = "getNumEquilRegions sim"
  from finishInit_construct [OF fin True nr] obtain regs D0 T where
    le: "?R \<le> 255"
    and regs: "internalizeEqlnum (cartesianIndex sim) (EQLNUM sim) [0..<numElements sim]
       (replicate (numElements sim) 0) = Inr regs"
    and T: "explicitElements sim ?R regs (reduceDefault (commOthers sim) D0)
       (elements sim) (replicate (?R * ?R) 0) = Inr T"
    and st: "thpres st = T" "elemEquilRegion st = regs" "numEquilRegions st = ?R"
      "enableThresholdPressure st"
    by metis
  have regs_eq: "regs = regions sim" by (rule finishInit_regions [OF regs])
  have regsR: "\<forall>r\<in>set (regions sim). r < ?R" by (rule regions_valid [OF valid le])
  have loop: "explicitIntersections sim ?R regs (reduceDefault (commOthers sim) D0)
      (visitedIntersections (elements sim)) (replicate (?R * ?R) 0) = Inr T"
    using T by (simp add: explicitElements_flat)
  have len: "length T = ?R * ?R" using explicitIntersections_length [OF loop] by simp
  have sym: "symmetricMatrix ?R T"
    using explicitIntersections_symmetric [OF loop _ symmetricMatrix_replicate] regsR regs_eq
    by simp
  have flt: "thpresftValues st \<noteq> [] \<longrightarrow>
            length (cartElemFaultIdx st) = getCartesianSize sim \<and>
            (\<forall>x\<in>set (cartElemFaultIdx st).
               x = - 1 \<or> (0 \<le> x \<and> nat x < length (thpresftValues st)))"
  proof
    assume ne: "thpresftValues st \<noteq> []"
    have ex: "enableExperiments sim"
      using finishInit_construct [OF fin True nr] ne by metis
    from finishInit_faultTables [OF fin True nr ex ne]
    show "length (cartElemFaultIdx st) = getCartesianSize sim \<and>
            (\<forall>x\<in>set (cartElemFaultIdx st).
               x = - 1 \<or> (0 \<le> x \<and> nat x < length (thpresftValues st)))"
      by auto
  qed
  show ?thesis
    using True st regs_eq regsR len sym flt by (simp add: tableOK_def)
qed

lemma initialised_tableOK: "initialised sim st \<Longrightarrow> tableOK sim st"
proof (induction rule: initialised.induct)
  case (construction sim junk st)
  then show ?case by (rule construction_tableOK)
next
  case (restartInjection sim junk st sim0 st0)
  show ?case
  proof (cases "useThresholdPressure sim")
    case False
    then show ?thesis
      using finishInit_disabled [OF restartInjection.hyps(1)]
      by (simp add: tableOK_def setFromRestart_def)
  next
    case True
    from finishInit_restart [OF restartInjection.hyps(1) True restartInjection.hyps(2)]
    obtain regs where
      regs: "internalizeEqlnum (cartesianIndex sim) (EQLNUM sim) [0..<numElements sim]
                   (replicate (numElements sim) 0) = Inr regs"
      and st: "st = \<lparr>thpresDefault = [], thpres = [],
                 numEquilRegions = getNumEquilRegions sim,
                 elemEquilRegion = regs, thpresftValues = [], cartElemFaultIdx = [],
                 enableThresholdPressure = True\<rparr>"
      by blast
    have le: "getNumEquilRegions sim \<le> 255"
      using restartInjection.hyps(1) True
      by (auto simp: finishInit_def Let_def split: if_splits)
    have regs_eq: "regs = regions sim" by (rule finishInit_regions [OF regs])
    have regsR: "\<forall>r\<in>set (regions sim). r < getNumEquilRegions sim"
      by (rule regions_valid [OF restartInjection.hyps(3) le])
    have old: "length (thpres st0) = getNumEquilRegions sim * getNumEquilRegions sim"
      "symmetricMatrix (getNumEquilRegions sim) (thpres st0)"
      using restartInjection.IH restartInjection.hyps(5,6) by (simp_all add: tableOK_def)
    show ?thesis
      using True regs_eq regsR old
      by (simp add: tableOK_def setFromRestart_def data_def st)
  qed
qed

lemma thresholdPressureEquil_symmetric:
  assumes "tableOK sim st" and "useThresholdPressure sim"
  shows "thresholdPressureEquil st a b = thresholdPressureEquil st b a"
proof (cases "a < length (elemEquilRegion st) \<and> b < length (elemEquilRegion st)")
  case False
  then show ?thesis by (auto simp: thresholdPressureEquil_def)
next
  case True
  let ?R = "getNumEquilRegions sim"
  define r1 where "r1 = elemEquilRegion st ! a"
  define r2 where "r2 = elemEquilRegion st ! b"
  have t: "numEquilRegions st = ?R" "elemEquilRegion st = regions sim"
    "\<forall>r\<in>set (regions sim). r < ?R" "length (thpres st) = ?R * ?R"
    "symmetricMatrix ?R (thpres st)"
    using assms by (simp_all add: tableOK_def)
  have "r1 \<in> set (regions sim)" "r2 \<in> set (regions sim)"
    using True t(2) by (simp_all add: r1_def r2_def)
  then have lt: "r1 < ?R" "r2 < ?R" using t(3) by simp_all
  have o: "r1 * ?R + r2 < length (thpres st)" "r2 * ?R + r1 < length (thpres st)"
    using offset_less lt t(4) by simp_all
  have s: "thpres st ! (r1 * ?R + r2) = thpres st ! (r2 * ?R + r1)"
    using t(5) lt by (simp add: symmetricMatrix_def)
  show ?thesis
    using True o s t(1)
    by (auto simp: thresholdPressureEquil_def Let_def r1_def [symmetric] r2_def [symmetric])
qed

lemma query_symmetric_if:
  assumes "thresholdPressureEquil st a b = thresholdPressureEquil st b a"
  shows "thresholdPressure sim st a b = thresholdPressure sim st b a"
  using assms
  by (auto simp: thresholdPressure_def Let_def max.commute)

text \<open>
  Claim C4. Once initialisation has completed, by construction or by the injection of a
  persisted matrix on a restart run, the query gives the same result for \<open>(a, b)\<close> and
  for \<open>(b, a)\<close>, for all cells \<open>a\<close> and \<open>b\<close>.
\<close>

theorem thresholdPressure_symmetric:
  assumes "initialised sim st"
  shows "thresholdPressure sim st a b = thresholdPressure sim st b a"
proof (cases "useThresholdPressure sim")
  case False
  then have "\<not> enableThresholdPressure st"
    using initialised_tableOK [OF assms] by (simp add: tableOK_def)
  then show ?thesis by (simp add: thresholdPressure_def)
next
  case True
  show ?thesis
    by (rule query_symmetric_if)
       (rule thresholdPressureEquil_symmetric [OF initialised_tableOK [OF assms] True])
qed

lemma exampleSim_valid: "validRegionData exampleSim"
  by (auto simp: validRegionData_def exampleSim_fields less_Suc_eq numeral_2_eq_2)

lemma exampleSim_initialised:
  "initialised exampleSim
     \<lparr>thpresDefault = [0, 250000, 250000, 0], thpres = [0, 250000, 250000, 0],
      numEquilRegions = 2, elemEquilRegion = [0, 1], thpresftValues = [],
      cartElemFaultIdx = [], enableThresholdPressure = True\<rparr>"
  by (rule initialised.construction [OF exampleSim_finishInit exampleSim_fields(7)
        exampleSim_valid])

lemma exampleSim_restart_initialised:
  "initialised (exampleSim\<lparr>restart := True\<rparr>)
     \<lparr>thpresDefault = [], thpres = [0, 250000, 250000, 0],
      numEquilRegions = 2, elemEquilRegion = [0, 1], thpresftValues = [],
      cartElemFaultIdx = [], enableThresholdPressure = True\<rparr>"
proof -
  have v: "validRegionData (exampleSim\<lparr>restart := True\<rparr>)"
    using exampleSim_valid by (simp add: validRegionData_def)
  have "initialised (exampleSim\<lparr>restart := True\<rparr>)
     (setFromRestart
        (data \<lparr>thpresDefault = [0, 250000, 250000, 0], thpres = [0, 250000, 250000, 0],
               numEquilRegions = 2, elemEquilRegion = [0, 1], thpresftValues = [],
               cartElemFaultIdx = [], enableThresholdPressure = True\<rparr>)
        \<lparr>thpresDefault = [], thpres = [], numEquilRegions = 2,
         elemEquilRegion = [0, 1], thpresftValues = [], cartElemFaultIdx = [],
         enableThresholdPressure = True\<rparr>)"
    by (rule initialised.restartInjection [OF exampleSim_restart _ v exampleSim_initialised
          exampleSim_fields(4)]) simp_all
  then show ?thesis by (simp add: setFromRestart_def data_def)
qed

theorem thresholdPressure_symmetric_witness:
  "thresholdPressure exampleSim
     \<lparr>thpresDefault = [0, 250000, 250000, 0], thpres = [0, 250000, 250000, 0],
      numEquilRegions = 2, elemEquilRegion = [0, 1], thpresftValues = [],
      cartElemFaultIdx = [], enableThresholdPressure = True\<rparr> 0 1 =
   thresholdPressure exampleSim
     \<lparr>thpresDefault = [0, 250000, 250000, 0], thpres = [0, 250000, 250000, 0],
      numEquilRegions = 2, elemEquilRegion = [0, 1], thpresftValues = [],
      cartElemFaultIdx = [], enableThresholdPressure = True\<rparr> 1 0 \<and>
   thresholdPressure (exampleSim\<lparr>restart := True\<rparr>)
     \<lparr>thpresDefault = [], thpres = [0, 250000, 250000, 0],
      numEquilRegions = 2, elemEquilRegion = [0, 1], thpresftValues = [],
      cartElemFaultIdx = [], enableThresholdPressure = True\<rparr> 0 1 =
   thresholdPressure (exampleSim\<lparr>restart := True\<rparr>)
     \<lparr>thpresDefault = [], thpres = [0, 250000, 250000, 0],
      numEquilRegions = 2, elemEquilRegion = [0, 1], thpresftValues = [],
      cartElemFaultIdx = [], enableThresholdPressure = True\<rparr> 1 0"
  using thresholdPressure_symmetric [OF exampleSim_initialised, of 0 1]
    thresholdPressure_symmetric [OF exampleSim_restart_initialised, of 0 1]
  by simp

subsection \<open>When the query cannot fail\<close>

lemma thresholdPressure_returns:
  assumes en: "enableThresholdPressure st"
    and R: "numEquilRegions st = R"
    and regs: "\<forall>r\<in>set (elemEquilRegion st). r < R"
    and lenT: "length (thpres st) = R * R"
    and len: "a < length (elemEquilRegion st)" "b < length (elemEquilRegion st)"
    and flt: "thpresftValues st \<noteq> [] \<longrightarrow>
            length (cartElemFaultIdx st) = getCartesianSize sim \<and>
            (\<forall>x\<in>set (cartElemFaultIdx st).
               x = - 1 \<or> (0 \<le> x \<and> nat x < length (thpresftValues st)))"
    and ca: "0 \<le> cartesianIndex sim a" "nat (cartesianIndex sim a) < getCartesianSize sim"
    and cb: "0 \<le> cartesianIndex sim b" "nat (cartesianIndex sim b) < getCartesianSize sim"
  shows "\<exists>v. thresholdPressure sim st a b = Inr v"
proof -
  define r1 where "r1 = elemEquilRegion st ! a"
  define r2 where "r2 = elemEquilRegion st ! b"
  have "r1 \<in> set (elemEquilRegion st)" "r2 \<in> set (elemEquilRegion st)"
    using len by (simp_all add: r1_def r2_def)
  then have "r1 < R" "r2 < R" using regs by simp_all
  then have o: "r1 * R + r2 < length (thpres st)" using offset_less lenT by simp
  have equil: "\<exists>v. thresholdPressureEquil st a b = Inr v"
    using len o R
    by (simp add: thresholdPressureEquil_def Let_def r1_def [symmetric] r2_def [symmetric])
  show ?thesis
  proof (cases "enableExperiments sim \<and> thpresftValues st \<noteq> []")
    case False
    then show ?thesis using equil en by (auto simp: thresholdPressure_def)
  next
    case ex: True
    define c1 where "c1 = cartesianIndex sim a"
    define c2 where "c2 = cartesianIndex sim b"
    define f1 where "f1 = cartElemFaultIdx st ! nat c1"
    define f2 where "f2 = cartElemFaultIdx st ! nat c2"
    have lc: "length (cartElemFaultIdx st) = getCartesianSize sim"
      and tab: "\<forall>x\<in>set (cartElemFaultIdx st).
               x = - 1 \<or> (0 \<le> x \<and> nat x < length (thpresftValues st))"
      using flt ex by simp_all
    have c: "0 \<le> c1" "nat c1 < getCartesianSize sim" "0 \<le> c2" "nat c2 < getCartesianSize sim"
      using ca cb by (simp_all add: c1_def c2_def)
    have a1: "0 \<le> c1 \<and> int (length (cartElemFaultIdx st)) > c1"
      and a2: "0 \<le> c2 \<and> int (length (cartElemFaultIdx st)) > c2"
      using c lc by simp_all
    have "f1 \<in> set (cartElemFaultIdx st)" "f2 \<in> set (cartElemFaultIdx st)"
      using c lc by (simp_all add: f1_def f2_def)
    then have f: "f1 = - 1 \<or> (0 \<le> f1 \<and> nat f1 < length (thpresftValues st))"
      "f2 = - 1 \<or> (0 \<le> f2 \<and> nat f2 < length (thpresftValues st))"
      using tab by blast+
    have b1: "\<not> (f1 \<ge> 0 \<and> nat f1 \<ge> length (thpresftValues st))" using f(1) by auto
    have b2: "\<not> (f2 \<ge> 0 \<and> nat f2 \<ge> length (thpresftValues st))" using f(2) by auto
    show ?thesis
    proof (cases "f1 = f2")
      case True
      then show ?thesis
        unfolding thresholdPressure_def Let_def c1_def [symmetric] c2_def [symmetric]
          f1_def [symmetric] f2_def [symmetric]
        using equil by (simp add: en ex a1 a2)
    next
      case False
      then show ?thesis
        unfolding thresholdPressure_def Let_def c1_def [symmetric] c2_def [symmetric]
          f1_def [symmetric] f2_def [symmetric]
        by (simp add: en ex a1 a2 b1 b2)
    qed
  qed
qed

text \<open>
  Claim C8, as amended. Let \<^verbatim>\<open>finishInit\<close> have completed and, on a restart run,
  \<^verbatim>\<open>setFromRestart\<close> have injected a matrix. If the region attribute of every cell lies
  in \<open>1 .. R\<close>, the vanguard maps every cell into the cartesian grid and, on a restart
  run, the injected matrix has \<open>R * R\<close> entries, then a query for two cells of the grid
  returns a value: no access is out of bounds and no assertion fails. The class checks
  none of the three conditions itself, and the query fails without any one of them.
\<close>

theorem thresholdPressure_total:
  assumes "finishInit sim (EclThresholdPressure_new junk) = Inr st0"
    and "st = (if restart sim then setFromRestart M st0 else st0)"
    and "validRegionData sim" and "validCartesianIndex sim"
    and "restart sim \<longrightarrow> length M = getNumEquilRegions sim * getNumEquilRegions sim"
    and "a < numElements sim" and "b < numElements sim"
  shows "\<exists>v. thresholdPressure sim st a b = Inr v"
proof (cases "useThresholdPressure sim")
  case False
  then have "\<not> enableThresholdPressure st"
    using finishInit_disabled [OF assms(1)] assms(2) by (simp add: setFromRestart_def)
  then show ?thesis by (simp add: thresholdPressure_def)
next
  case True
  let ?R = "getNumEquilRegions sim"
  have le: "?R \<le> 255"
    using assms(1) True by (auto simp: finishInit_def Let_def split: if_splits)
  have regsR: "\<forall>r\<in>set (regions sim). r < ?R" by (rule regions_valid [OF assms(3) le])
  have c: "0 \<le> cartesianIndex sim a" "nat (cartesianIndex sim a) < getCartesianSize sim"
    "0 \<le> cartesianIndex sim b" "nat (cartesianIndex sim b) < getCartesianSize sim"
    using assms(4,6,7) by (simp_all add: validCartesianIndex_def)
  have n: "a < length (regions sim)" "b < length (regions sim)"
    using assms(6,7) by (simp_all add: regions_def)
  show ?thesis
  proof (cases "restart sim")
    case False
    have t: "tableOK sim st0" by (rule construction_tableOK [OF assms(1) False assms(3)])
    have st: "st = st0" using False assms(2) by simp
    show ?thesis
      unfolding st
      using t True n regsR c
      by (intro thresholdPressure_returns [where R = "?R"]) (simp_all add: tableOK_def)
  next
    case r: True
    from finishInit_restart [OF assms(1) True r] obtain regs where
      regs: "internalizeEqlnum (cartesianIndex sim) (EQLNUM sim) [0..<numElements sim]
                   (replicate (numElements sim) 0) = Inr regs"
      and st0: "st0 = \<lparr>thpresDefault = [], thpres = [],
                 numEquilRegions = getNumEquilRegions sim,
                 elemEquilRegion = regs, thpresftValues = [], cartElemFaultIdx = [],
                 enableThresholdPressure = True\<rparr>"
      by blast
    have regs_eq: "regs = regions sim" by (rule finishInit_regions [OF regs])
    have st: "st = \<lparr>thpresDefault = [], thpres = M,
                 numEquilRegions = getNumEquilRegions sim,
                 elemEquilRegion = regions sim, thpresftValues = [], cartElemFaultIdx = [],
                 enableThresholdPressure = True\<rparr>"
      using r assms(2) by (simp add: st0 regs_eq setFromRestart_def)
    have lenM: "length M = ?R * ?R" using r assms(5) by simp
    show ?thesis
      unfolding st
      using n regsR c lenM
      by (intro thresholdPressure_returns [where R = "?R"]) simp_all
  qed
qed

lemma faultSim_valid: "validRegionData faultSim"
  by (auto simp: validRegionData_def faultSim_fields less_Suc_eq numeral_2_eq_2)

theorem thresholdPressure_total_witness:
  "(\<exists>v. thresholdPressure faultSim
     \<lparr>thpresDefault = [0, 250000, 250000, 0], thpres = [0, 250000, 250000, 0],
      numEquilRegions = 2, elemEquilRegion = [0, 1], thpresftValues = [3, 7],
      cartElemFaultIdx = [0, 1], enableThresholdPressure = True\<rparr> 0 1 = Inr v) \<and>
   (\<exists>v. thresholdPressure (exampleSim\<lparr>restart := True\<rparr>)
     (setFromRestart [0, 5, 6, 0]
        \<lparr>thpresDefault = [], thpres = [], numEquilRegions = 2,
         elemEquilRegion = [0, 1], thpresftValues = [], cartElemFaultIdx = [],
         enableThresholdPressure = True\<rparr>) 1 0 = Inr v)"
proof -
  let ?rs = "exampleSim\<lparr>restart := True\<rparr>"
  have c: "validCartesianIndex faultSim" "validCartesianIndex ?rs"
    by (auto simp: validCartesianIndex_def faultSim_fields exampleSim_fields)
  have v: "validRegionData ?rs"
    using exampleSim_valid by (simp add: validRegionData_def)
  have n: "0 < numElements faultSim" "1 < numElements faultSim"
    "0 < numElements ?rs" "1 < numElements ?rs"
    by (simp_all add: faultSim_fields exampleSim_fields)
  have m1: "restart faultSim \<longrightarrow>
      length ([] :: real list) = getNumEquilRegions faultSim * getNumEquilRegions faultSim"
    by (simp add: faultSim_fields)
  have m2: "restart ?rs \<longrightarrow>
      length [0, 5, 6, 0 :: real] = getNumEquilRegions ?rs * getNumEquilRegions ?rs"
    by (simp add: exampleSim_fields)
  have s1: "\<lparr>thpresDefault = [0, 250000, 250000, 0], thpres = [0, 250000, 250000, 0],
      numEquilRegions = 2, elemEquilRegion = [0, 1], thpresftValues = [3, 7],
      cartElemFaultIdx = [0, 1], enableThresholdPressure = True\<rparr> =
      (if restart faultSim
       then setFromRestart []
         \<lparr>thpresDefault = [0, 250000, 250000, 0], thpres = [0, 250000, 250000, 0],
          numEquilRegions = 2, elemEquilRegion = [0, 1], thpresftValues = [3, 7],
          cartElemFaultIdx = [0, 1], enableThresholdPressure = True\<rparr>
       else \<lparr>thpresDefault = [0, 250000, 250000, 0], thpres = [0, 250000, 250000, 0],
          numEquilRegions = 2, elemEquilRegion = [0, 1], thpresftValues = [3, 7],
          cartElemFaultIdx = [0, 1], enableThresholdPressure = True\<rparr>)"
    by (simp add: faultSim_fields)
  have s2: "setFromRestart [0, 5, 6, 0]
        \<lparr>thpresDefault = [], thpres = [], numEquilRegions = 2,
         elemEquilRegion = [0, 1], thpresftValues = [], cartElemFaultIdx = [],
         enableThresholdPressure = True\<rparr> =
      (if restart ?rs
       then setFromRestart [0, 5, 6, 0]
        \<lparr>thpresDefault = [], thpres = [], numEquilRegions = 2,
         elemEquilRegion = [0, 1], thpresftValues = [], cartElemFaultIdx = [],
         enableThresholdPressure = True\<rparr>
       else \<lparr>thpresDefault = [], thpres = [], numEquilRegions = 2,
         elemEquilRegion = [0, 1], thpresftValues = [], cartElemFaultIdx = [],
         enableThresholdPressure = True\<rparr>)"
    by simp
  show ?thesis
    using thresholdPressure_total [OF faultSim_finishInit s1 faultSim_valid c(1) m1 n(1,2)]
      thresholdPressure_total [OF exampleSim_restart s2 v c(2) m2 n(4,3)]
    by simp
qed

text \<open>Three completed initialisations after which a query for two cells of the grid
  fails: a cell with a region number beyond the declared count, an injected matrix of one
  entry on a restart run with two regions, and a cell whose cartesian index lies beyond
  the fault table.\<close>

lemma strayRegion_regions:
  "internalizeEqlnum int [1, 3] [0..<2] (replicate 2 0) = Inr [0, 2]"
  by (simp add: upt_rec numeral_2_eq_2 Let_def)

lemma strayRegionSim_fields:
  "numElements strayRegionSim = 2" "numGridDof strayRegionSim = 2"
  "cartesianIndex strayRegionSim = int"
  "useThresholdPressure strayRegionSim" "getNumEquilRegions strayRegionSim = 2"
  "EQLNUM strayRegionSim = [1, 3]" "\<not> restart strayRegionSim"
  "hasRegionBarrier strayRegionSim = (\<lambda>r1 r2. False)"
  "elements strayRegionSim = scaledElements 0" "commOthers strayRegionSim = []"
  "\<not> enableExperiments strayRegionSim"
  by (simp_all add: strayRegionSim_def exampleSim_def)

lemma strayRegion_scan:
  "defaultElements 2 [0, 2] (scaledElements 0) [0, 0, 0, 0] = Inr [0, 0, 0, 0]"
  by (simp add: scaledElements_def exampleElements_def exampleFace_def defaultFace_def Let_def
      example_flow)

lemma strayRegion_explicit:
  "explicitElements strayRegionSim 2 [0, 2] [0, 0, 0, 0] (scaledElements 0) [0, 0, 0, 0] =
     Inr [0, 0, 0, 0]"
  by (simp add: scaledElements_def exampleElements_def strayRegionSim_fields
      explicitIntersection_def Let_def)

lemma strayRegionSim_finishInit:
  "finishInit strayRegionSim (EclThresholdPressure_new 0) =
     Inr \<lparr>thpresDefault = [0, 0, 0, 0], thpres = [0, 0, 0, 0],
          numEquilRegions = 2, elemEquilRegion = [0, 2], thpresftValues = [],
          cartElemFaultIdx = [], enableThresholdPressure = True\<rparr>"
proof -
  have r: "reduceDefault [] [0, 0, 0, 0] = [0, 0, 0, 0]"
    by (simp add: reduceDefault_def commMax_def upt4)
  show ?thesis
    by (simp add: finishInit_def EclThresholdPressure_new_def resize_def Let_def
        strayRegion_regions computeDefaultThresholdPressures_def scanDefault_def
        applyExplicitThresholdPressures_def replicate4 strayRegionSim_fields r
        strayRegion_scan strayRegion_explicit del: One_nat_def)
qed

lemma strayCartesianSim_fields:
  "numElements strayCartesianSim = 2" "numGridDof strayCartesianSim = 2"
  "cartesianIndex strayCartesianSim = int"
  "useThresholdPressure strayCartesianSim" "getNumEquilRegions strayCartesianSim = 2"
  "EQLNUM strayCartesianSim = [1, 2]" "\<not> restart strayCartesianSim"
  "hasRegionBarrier strayCartesianSim = (\<lambda>r1 r2. r1 \<noteq> r2)"
  "hasThresholdPressure strayCartesianSim = (\<lambda>r1 r2. False)"
  "elements strayCartesianSim = exampleElements" "commOthers strayCartesianSim = []"
  "enableExperiments strayCartesianSim" "THPRESFT strayCartesianSim = Some [(''F1'', 3)]"
  "faults strayCartesianSim = [\<lparr>faultName = ''F1'', faultFaces = [[0]]\<rparr>]"
  "getCartesianSize strayCartesianSim = 1"
  by (simp_all add: strayCartesianSim_def exampleSim_def)

lemma strayCartesian_explicit:
  "explicitElements strayCartesianSim 2 [0, 1] [0, 250000, 250000, 0] exampleElements
     [0, 0, 0, 0] = Inr [0, 250000, 250000, 0]"
  by (simp add: exampleElements_def strayCartesianSim_fields explicitIntersection_def Let_def)

lemma strayCartesian_extract:
  "recordLoop [\<lparr>faultName = ''F1'', faultFaces = [[0]]\<rparr>] [(''F1'', 3)] ([- 1], [- 1]) =
     Inr ([3], [0])"
  by simp

lemma strayCartesianSim_finishInit:
  "finishInit strayCartesianSim (EclThresholdPressure_new 0) =
     Inr \<lparr>thpresDefault = [0, 250000, 250000, 0], thpres = [0, 250000, 250000, 0],
          numEquilRegions = 2, elemEquilRegion = [0, 1], thpresftValues = [3],
          cartElemFaultIdx = [0], enableThresholdPressure = True\<rparr>"
proof -
  have r: "reduceDefault [] [0, 250000, 250000, 0] = [0, 250000, 250000, 0]"
    by (simp add: reduceDefault_def commMax_def upt4)
  have one: "replicate 1 (- 1 :: real) = [- 1]" "replicate 1 (- 1 :: int) = [- 1]"
    by simp_all
  show ?thesis
    by (simp add: finishInit_def EclThresholdPressure_new_def Let_def
        exampleSim_regions computeDefaultThresholdPressures_def scanDefault_def
        applyExplicitThresholdPressures_def extractThpresft_def resize_empty replicate4
        strayCartesianSim_fields r one exampleSim_scan strayCartesian_explicit
        strayCartesian_extract del: One_nat_def recordLoop.simps)
qed

theorem thresholdPressure_total_counterexample:
  "finishInit strayRegionSim (EclThresholdPressure_new 0) =
     Inr \<lparr>thpresDefault = [0, 0, 0, 0], thpres = [0, 0, 0, 0],
          numEquilRegions = 2, elemEquilRegion = [0, 2], thpresftValues = [],
          cartElemFaultIdx = [], enableThresholdPressure = True\<rparr> \<and>
   thresholdPressure strayRegionSim
     \<lparr>thpresDefault = [0, 0, 0, 0], thpres = [0, 0, 0, 0],
      numEquilRegions = 2, elemEquilRegion = [0, 2], thpresftValues = [],
      cartElemFaultIdx = [], enableThresholdPressure = True\<rparr> 1 0 = Inl OutOfBounds \<and>
   finishInit (exampleSim\<lparr>restart := True\<rparr>) (EclThresholdPressure_new 0) =
     Inr \<lparr>thpresDefault = [], thpres = [], numEquilRegions = 2,
          elemEquilRegion = [0, 1], thpresftValues = [], cartElemFaultIdx = [],
          enableThresholdPressure = True\<rparr> \<and>
   thresholdPressure (exampleSim\<lparr>restart := True\<rparr>)
     (setFromRestart [5]
        \<lparr>thpresDefault = [], thpres = [], numEquilRegions = 2,
         elemEquilRegion = [0, 1], thpresftValues = [], cartElemFaultIdx = [],
         enableThresholdPressure = True\<rparr>) 0 1 = Inl OutOfBounds \<and>
   finishInit strayCartesianSim (EclThresholdPressure_new 0) =
     Inr \<lparr>thpresDefault = [0, 250000, 250000, 0], thpres = [0, 250000, 250000, 0],
          numEquilRegions = 2, elemEquilRegion = [0, 1], thpresftValues = [3],
          cartElemFaultIdx = [0], enableThresholdPressure = True\<rparr> \<and>
   thresholdPressure strayCartesianSim
     \<lparr>thpresDefault = [0, 250000, 250000, 0], thpres = [0, 250000, 250000, 0],
      numEquilRegions = 2, elemEquilRegion = [0, 1], thpresftValues = [3],
      cartElemFaultIdx = [0], enableThresholdPressure = True\<rparr> 0 1 = Inl AssertionFailed"
proof -
  have q1: "thresholdPressure strayRegionSim
     \<lparr>thpresDefault = [0, 0, 0, 0], thpres = [0, 0, 0, 0],
      numEquilRegions = 2, elemEquilRegion = [0, 2], thpresftValues = [],
      cartElemFaultIdx = [], enableThresholdPressure = True\<rparr> 1 0 = Inl OutOfBounds"
    by (simp add: thresholdPressure_def thresholdPressureEquil_def Let_def)
  have q2: "thresholdPressure (exampleSim\<lparr>restart := True\<rparr>)
     (setFromRestart [5]
        \<lparr>thpresDefault = [], thpres = [], numEquilRegions = 2,
         elemEquilRegion = [0, 1], thpresftValues = [], cartElemFaultIdx = [],
         enableThresholdPressure = True\<rparr>) 0 1 = Inl OutOfBounds"
    by (simp add: thresholdPressure_def thresholdPressureEquil_def setFromRestart_def Let_def)
  have q3: "thresholdPressure strayCartesianSim
     \<lparr>thpresDefault = [0, 250000, 250000, 0], thpres = [0, 250000, 250000, 0],
      numEquilRegions = 2, elemEquilRegion = [0, 1], thpresftValues = [3],
      cartElemFaultIdx = [0], enableThresholdPressure = True\<rparr> 0 1 = Inl AssertionFailed"
    by (simp add: thresholdPressure_def Let_def strayCartesianSim_fields)
  show ?thesis
    using strayRegionSim_finishInit exampleSim_restart strayCartesianSim_finishInit q1 q2 q3
    by simp
qed

subsection \<open>The default matrix is symmetric\<close>

lemma computeDefault_symmetric:
  assumes "computeDefaultThresholdPressures sim st = Inr st'"
    and "R = numEquilRegions st"
    and "\<forall>r\<in>set (elemEquilRegion st). r < R"
    and "length (thpresDefault st) = R * R"
    and "symmetricMatrix R (thpresDefault st)"
    and "\<forall>m\<in>set (commOthers sim). symmetricMatrix R m"
  shows "symmetricMatrix R (thpresDefault st')"
proof -
  from assms(1) obtain D where
    scan: "defaultFaces R (elemEquilRegion st) (visitedFaces (elements sim)) (thpresDefault st)
             = Inr D"
    and st': "thpresDefault st' = reduceDefault (commOthers sim) D"
    by (auto simp: computeDefaultThresholdPressures_def scanDefault_def defaultElements_flat
        assms(2) split: sum.splits)
  have symD: "symmetricMatrix R D"
    by (rule defaultFaces_symmetric [OF scan assms(3,5)])
  have len: "length D = R * R" using defaultFaces_length [OF scan] assms(4) by simp
  show ?thesis
    unfolding symmetricMatrix_def st'
  proof (intro allI impI)
    fix r1 r2 assume r: "r1 < R" "r2 < R"
    have o: "r1 * R + r2 < length D" "r2 * R + r1 < length D"
      using offset_less r len by simp_all
    have d: "D ! (r1 * R + r2) = D ! (r2 * R + r1)"
      using symD r by (simp add: symmetricMatrix_def)
    have m: "map (\<lambda>m. m ! (r1 * R + r2)) (commOthers sim) =
          map (\<lambda>m. m ! (r2 * R + r1)) (commOthers sim)"
      using assms(6) r by (simp add: symmetricMatrix_def)
    show "reduceDefault (commOthers sim) D ! (r1 * R + r2) =
               reduceDefault (commOthers sim) D ! (r2 * R + r1)"
      unfolding reduceDefault_nth [OF o(1)] reduceDefault_nth [OF o(2)] m d ..
  qed
qed

end
